theory Spec2Isabelle
  imports Complex_Main "HOL-Library.Sublist"
begin

section \<open>JavaScript values used by the tiling pipeline\<close>

text \<open>
  A JavaScript number that comes out of a division is modelled by \<open>jsnum\<close>: a finite
  value (an exact real, so rounding to the nearest double is abstracted away), the two
  infinities, or NaN. Zero is always read as \<open>+0\<close>: every divisor in the program is
  either the tile size or a sum of file sizes that starts at \<open>+0\<close>.
  Quantities the code only ever adds, multiplies or compares as whole numbers (pixel
  offsets, loop counters, byte sizes) are \<open>int\<close> and \<open>nat\<close>.
\<close>

datatype jsnum = Fin real | PosInf | NegInf | NaN

text \<open>\<^verbatim>\<open>a / b\<close>\<close>

fun js_div :: "jsnum \<Rightarrow> jsnum \<Rightarrow> jsnum" where
  "js_div NaN _ = NaN"
| "js_div _ NaN = NaN"
| "js_div (Fin a) (Fin b) =
     (if b \<noteq> 0 then Fin (a / b)
      else if 0 < a then PosInf else if a < 0 then NegInf else NaN)"
| "js_div (Fin a) PosInf = Fin 0"
| "js_div (Fin a) NegInf = Fin 0"
| "js_div PosInf (Fin b) = (if b < 0 then NegInf else PosInf)"
| "js_div NegInf (Fin b) = (if b < 0 then PosInf else NegInf)"
| "js_div PosInf _ = NaN"
| "js_div NegInf _ = NaN"

text \<open>\<^verbatim>\<open>a - b\<close>\<close>

fun js_sub :: "jsnum \<Rightarrow> jsnum \<Rightarrow> jsnum" where
  "js_sub NaN _ = NaN"
| "js_sub _ NaN = NaN"
| "js_sub (Fin a) (Fin b) = Fin (a - b)"
| "js_sub (Fin a) PosInf = NegInf"
| "js_sub (Fin a) NegInf = PosInf"
| "js_sub PosInf PosInf = NaN"
| "js_sub PosInf _ = PosInf"
| "js_sub NegInf NegInf = NaN"
| "js_sub NegInf _ = NegInf"

text \<open>\<^verbatim>\<open>a * b\<close>\<close>

fun js_mul :: "jsnum \<Rightarrow> jsnum \<Rightarrow> jsnum" where
  "js_mul NaN _ = NaN"
| "js_mul _ NaN = NaN"
| "js_mul (Fin a) (Fin b) = Fin (a * b)"
| "js_mul (Fin a) PosInf = (if a = 0 then NaN else if 0 < a then PosInf else NegInf)"
| "js_mul (Fin a) NegInf = (if a = 0 then NaN else if 0 < a then NegInf else PosInf)"
| "js_mul PosInf (Fin b) = (if b = 0 then NaN else if 0 < b then PosInf else NegInf)"
| "js_mul NegInf (Fin b) = (if b = 0 then NaN else if 0 < b then NegInf else PosInf)"
| "js_mul PosInf PosInf = PosInf"
| "js_mul PosInf NegInf = NegInf"
| "js_mul NegInf PosInf = NegInf"
| "js_mul NegInf NegInf = PosInf"

text \<open>\<^verbatim>\<open>Math.ceil(a)\<close>\<close>

fun Math_ceil :: "jsnum \<Rightarrow> jsnum" where
  "Math_ceil (Fin a) = Fin (of_int \<lceil>a\<rceil>)"
| "Math_ceil v = v"

text \<open>\<^verbatim>\<open>a < b\<close>: false as soon as one side is NaN.\<close>

fun js_lt :: "jsnum \<Rightarrow> jsnum \<Rightarrow> bool" where
  "js_lt NaN _ = False"
| "js_lt _ NaN = False"
| "js_lt (Fin a) (Fin b) = (a < b)"
| "js_lt (Fin a) PosInf = True"
| "js_lt (Fin a) NegInf = False"
| "js_lt PosInf _ = False"
| "js_lt NegInf NegInf = False"
| "js_lt NegInf _ = True"

text \<open>
  Number to string, as a template literal or \<^verbatim>\<open>toString()\<close> does it for a whole
  number: the decimal digits, with a minus sign for a negative value.
\<close>

definition digit_char :: "nat \<Rightarrow> char" where
  "digit_char d = char_of (48 + d)"

fun string_of_nat :: "nat \<Rightarrow> string" where
  "string_of_nat n =
     (if n < 10 then [digit_char n]
      else string_of_nat (n div 10) @ [digit_char (n mod 10)])"

declare string_of_nat.simps [simp del]

definition js_String :: "int \<Rightarrow> string" where
  "js_String i = (if i < 0 then ''-'' @ string_of_nat (nat (- i)) else string_of_nat (nat i))"

text \<open>
  \<^verbatim>\<open>s.replace(pat, rep)\<close> with a string pattern: the first occurrence of \<open>pat\<close> is
  replaced, and a string without an occurrence is returned as it is. (The replacement
  used here, \<^verbatim>\<open>'.ktx2'\<close>, has no \<^verbatim>\<open>$\<close> pattern in it.)
\<close>

fun js_replace :: "string \<Rightarrow> string \<Rightarrow> string \<Rightarrow> string" where
  "js_replace pat rep [] = (if pat = [] then rep else [])"
| "js_replace pat rep (c # cs) =
     (if prefix pat (c # cs) then rep @ drop (length pat) (c # cs)
      else c # js_replace pat rep cs)"

text \<open>
  \<^verbatim>\<open>s.replace(/\.(png|jpg|jpeg)$/i, '.ktx2')\<close>: the pattern is anchored at the end of
  the string and ignores the case of the ASCII letters.
\<close>

definition ascii_lower :: "char \<Rightarrow> char" where
  "ascii_lower c =
     (if 65 \<le> (of_char c :: nat) \<and> (of_char c :: nat) \<le> 90 then char_of (of_char c + 32 :: nat)
      else c)"

definition replace_image_ext :: "string \<Rightarrow> string" where
  "replace_image_ext s =
     (let l = map ascii_lower s in
      if suffix ''.jpeg'' l then take (length s - 5) s @ ''.ktx2''
      else if suffix ''.png'' l \<or> suffix ''.jpg'' l then take (length s - 4) s @ ''.ktx2''
      else s)"

text \<open>
  \<^verbatim>\<open>path.join(a, b)\<close>, as Node implements it for POSIX paths: the non-empty
  arguments are joined with a slash and the result is normalised. Normalising splits the
  path at its slashes, drops empty and \<^verbatim>\<open>.\<close> segments, lets a \<^verbatim>\<open>..\<close> segment cancel
  the segment before it (or keeps it at the front of a relative path), and puts the
  remaining segments together again; \<open>normalizeString\<close> is that pass over the segments,
  with the segments kept so far in \<open>res\<close>.
\<close>

fun split_on :: "char \<Rightarrow> string \<Rightarrow> string list" where
  "split_on c [] = [[]]"
| "split_on c (x # xs) =
     (if x = c then [] # split_on c xs
      else (case split_on c xs of [] \<Rightarrow> [[x]] | w # ws \<Rightarrow> (x # w) # ws))"

fun join_slash :: "string list \<Rightarrow> string" where
  "join_slash [] = []"
| "join_slash [a] = a"
| "join_slash (a # b # bs) = a @ ''/'' @ join_slash (b # bs)"

fun normalizeString :: "bool \<Rightarrow> string list \<Rightarrow> string list \<Rightarrow> string list" where
  "normalizeString allowAboveRoot [] res = res"
| "normalizeString allowAboveRoot (seg # segs) res =
     (if seg = [] \<or> seg = ''.'' then normalizeString allowAboveRoot segs res
      else if seg = ''..'' then
        (if res \<noteq> [] \<and> last res \<noteq> ''..'' then normalizeString allowAboveRoot segs (butlast res)
         else if allowAboveRoot then normalizeString allowAboveRoot segs (res @ [''..''])
         else normalizeString allowAboveRoot segs res)
      else normalizeString allowAboveRoot segs (res @ [seg]))"

definition path_normalize :: "string \<Rightarrow> string" where
  "path_normalize path =
     (if path = [] then ''.''
      else
        (let isAbsolute = (hd path = CHR ''/'');
             trailingSeparator = (last path = CHR ''/'');
             res = normalizeString (\<not> isAbsolute) (split_on CHR ''/'' path) []
         in if res = [] then (if isAbsolute then ''/'' else if trailingSeparator then ''./'' else ''.'')
            else (if isAbsolute then ''/'' else [])
                 @ join_slash res @ (if trailingSeparator then ''/'' else [])))"

definition path_join :: "string \<Rightarrow> string \<Rightarrow> string" where
  "path_join a b =
     (let joined = (if a = [] then b else if b = [] then a else a @ ''/'' @ b)
      in if joined = [] then ''.'' else path_normalize joined)"

text \<open>\<^verbatim>\<open>args.join(' ')\<close>\<close>

fun join_space :: "string list \<Rightarrow> string" where
  "join_space [] = []"
| "join_space [a] = a"
| "join_space (a # b # bs) = a @ '' '' @ join_space (b # bs)"

text \<open>
  A thrown value: an \<^verbatim>\<open>Error\<close> object with its message, or any other value, kept as
  the text \<^verbatim>\<open>String(value)\<close> gives for it.
\<close>

datatype thrown = Error string | NonError string

section \<open>The data model (\<^verbatim>\<open>core/types.ts\<close>)\<close>

datatype tile_format = png | ktx2

fun format_name :: "tile_format \<Rightarrow> string" where
  "format_name png = ''png''"
| "format_name ktx2 = ''ktx2''"

datatype compression_mode = etc1s | uastc

record ChunkMetadata =
  c_id :: string
  c_x :: int
  c_y :: int
  c_pixelX :: int
  c_pixelY :: int
  c_width :: int
  c_height :: int
  c_filename :: string

record ChunkedMapMetadata =
  version :: int
  totalWidth :: int
  totalHeight :: int
  chunkWidth :: int
  chunkHeight :: int
  chunksX :: jsnum
  chunksY :: jsnum
  chunks :: "ChunkMetadata list"
  format :: tile_format

record ChunkOptions =
  co_chunkSize :: "int option"
  co_outputDir :: string
  co_format :: "tile_format option"

record ConversionOptions =
  cv_mode :: compression_mode
  cv_quality :: "int option"
  cv_compressionLevel :: "int option"
  cv_mipmaps :: "bool option"
  cv_normalMap :: "bool option"
  cv_toktxPath :: "string option"

record ConversionResult =
  success :: bool
  inputFile :: string
  outputFile :: string
  originalSize :: int
  compressedSize :: int
  compressionRatio :: jsnum
  mode :: compression_mode
  duration :: int
  error :: "string option"

record ProcessOptions =
  po_input :: string
  po_outputDir :: string
  po_chunkSize :: "int option"
  po_mode :: "compression_mode option"
  po_quality :: "int option"
  po_compressionLevel :: "int option"
  po_mipmaps :: "bool option"

record ProcessResult =
  metadata :: ChunkedMapMetadata
  conversions :: "ConversionResult list"
  totalOriginalSize :: int
  totalCompressedSize :: int
  totalSaved :: int
  pr_compressionRatio :: jsnum

text \<open>\<^verbatim>\<open>a ?? b\<close>\<close>

fun nullish :: "'a option \<Rightarrow> 'a \<Rightarrow> 'a" where
  "nullish None d = d"
| "nullish (Some v) d = v"

section \<open>The operating environment\<close>

text \<open>
  The file system, the image library and the external encoder are not part of the
  program. They are a parameter: a record of primitives over a world \<open>'w\<close>, each of which
  may throw and may change the world. The text \<^verbatim>\<open>JSON.stringify\<close> produces for a
  manifest is kept symbolically, as the manifest it was made from.
\<close>

datatype json_text = JSON_stringify ChunkedMapMetadata

record 'w io =
  fs_mkdir :: "string \<Rightarrow> 'w \<Rightarrow> (thrown + unit) \<times> 'w"
  fs_writeFile :: "string \<Rightarrow> json_text \<Rightarrow> 'w \<Rightarrow> (thrown + unit) \<times> 'w"
  fs_rm :: "string \<Rightarrow> 'w \<Rightarrow> (thrown + unit) \<times> 'w"
  fs_access :: "string \<Rightarrow> 'w \<Rightarrow> (thrown + unit) \<times> 'w"
  fs_stat :: "string \<Rightarrow> 'w \<Rightarrow> (thrown + int) \<times> 'w"
  sharp_metadata :: "string \<Rightarrow> 'w \<Rightarrow> (thrown + int option \<times> int option) \<times> 'w"
  sharp_extract_toFile ::
    "string \<Rightarrow> int \<Rightarrow> int \<Rightarrow> int \<Rightarrow> int \<Rightarrow> string \<Rightarrow> 'w \<Rightarrow> (thrown + unit) \<times> 'w"
  execAsync :: "string \<Rightarrow> 'w \<Rightarrow> (thrown + unit) \<times> 'w"
  Date_now :: "'w \<Rightarrow> int"

text \<open>
  The program's state is the world together with the history of the requests the
  program has made to its environment, oldest first.
\<close>

datatype event =
    Mkdir string
  | WriteFile string json_text
  | Rm string
  | Access string
  | Stat string
  | ReadMetadata string
  | ExtractToFile string int int int int string
  | Exec string

record 'w st =
  world :: 'w
  trace :: "event list"

definition request ::
  "event \<Rightarrow> ('w \<Rightarrow> (thrown + 'a) \<times> 'w) \<Rightarrow> 'w st \<Rightarrow> (thrown + 'a) \<times> 'w st" where
  "request ev prim s =
     (case prim (world s) of (r, w') \<Rightarrow> (r, \<lparr>world = w', trace = trace s @ [ev]\<rparr>))"

section \<open>The image chunker (\<^verbatim>\<open>chunker/ImageChunker.ts\<close>)\<close>

record ImageChunker =
  ic_chunkSize :: int
  ic_outputDir :: string
  ic_format :: tile_format

definition ImageChunker_new :: "ChunkOptions \<Rightarrow> ImageChunker" where
  "ImageChunker_new options =
     \<lparr>ic_chunkSize = nullish (co_chunkSize options) 1024,
      ic_outputDir = co_outputDir options,
      ic_format = nullish (co_format options) png\<rparr>"

text \<open>
  \<^verbatim>\<open>createChunk\<close>: names the tile, clips it to the image, has the image library
  write it and returns its metadata. \<open>img\<close> is the path the image handle was opened on.
\<close>

definition createChunk ::
  "'w io \<Rightarrow> ImageChunker \<Rightarrow> string \<Rightarrow> nat \<Rightarrow> nat \<Rightarrow> int \<Rightarrow> int \<Rightarrow> 'w st
     \<Rightarrow> (thrown + ChunkMetadata) \<times> 'w st" where
  "createChunk env this img col row totalWidth' totalHeight' s =
     (let chunkId = js_String (int col) @ ''_'' @ js_String (int row);
          pixelX = int col * ic_chunkSize this;
          pixelY = int row * ic_chunkSize this;
          width = min (ic_chunkSize this) (totalWidth' - pixelX);
          height = min (ic_chunkSize this) (totalHeight' - pixelY);
          filename = chunkId @ ''.'' @ format_name (ic_format this);
          filePath = path_join (ic_outputDir this) filename
      in case request (ExtractToFile img pixelX pixelY width height filePath)
                (sharp_extract_toFile env img pixelX pixelY width height filePath) s of
           (Inl e, s') \<Rightarrow> (Inl e, s')
         | (Inr _, s') \<Rightarrow>
             (Inr \<lparr>c_id = chunkId, c_x = int col, c_y = int row,
                   c_pixelX = pixelX, c_pixelY = pixelY,
                   c_width = width, c_height = height, c_filename = filename\<rparr>, s'))"

definition saveMetadata ::
  "'w io \<Rightarrow> ImageChunker \<Rightarrow> ChunkedMapMetadata \<Rightarrow> 'w st \<Rightarrow> (thrown + unit) \<times> 'w st" where
  "saveMetadata env this md s =
     (let metadataPath = path_join (ic_outputDir this) ''metadata.json''
      in request (WriteFile metadataPath (JSON_stringify md))
           (fs_writeFile env metadataPath (JSON_stringify md)) s)"

text \<open>
  The two nested loops of \<^verbatim>\<open>chunkImage\<close>. Their bounds are the results of
  \<^verbatim>\<open>Math.ceil\<close> and can be infinite (a tile size of zero), in which case a loop leaves
  only by an exception: not returning is the value \<open>None\<close>.
\<close>

partial_function (option) chunkImage_cols ::
  "'w io \<Rightarrow> ImageChunker \<Rightarrow> string \<Rightarrow> int \<Rightarrow> int \<Rightarrow> jsnum \<Rightarrow> nat \<Rightarrow> nat
     \<Rightarrow> ChunkMetadata list \<Rightarrow> 'w st \<Rightarrow> ((thrown + ChunkMetadata list) \<times> 'w st) option" where
  "chunkImage_cols env this img width height chunksX' row col chunks' s =
     (if js_lt (Fin (real col)) chunksX' then
        (case createChunk env this img col row width height s of
           (Inl e, s') \<Rightarrow> Some (Inl e, s')
         | (Inr chunk, s') \<Rightarrow>
             chunkImage_cols env this img width height chunksX' row (col + 1)
               (chunks' @ [chunk]) s')
      else Some (Inr chunks', s))"

partial_function (option) chunkImage_rows ::
  "'w io \<Rightarrow> ImageChunker \<Rightarrow> string \<Rightarrow> int \<Rightarrow> int \<Rightarrow> jsnum \<Rightarrow> jsnum \<Rightarrow> nat
     \<Rightarrow> ChunkMetadata list \<Rightarrow> 'w st \<Rightarrow> ((thrown + ChunkMetadata list) \<times> 'w st) option" where
  "chunkImage_rows env this img width height chunksX' chunksY' row chunks' s =
     (if js_lt (Fin (real row)) chunksY' then
        (case chunkImage_cols env this img width height chunksX' row 0 chunks' s of
           None \<Rightarrow> None
         | Some (Inl e, s') \<Rightarrow> Some (Inl e, s')
         | Some (Inr chunks'', s') \<Rightarrow>
             chunkImage_rows env this img width height chunksX' chunksY' (row + 1) chunks'' s')
      else Some (Inr chunks', s))"

declare chunkImage_cols.simps [code]
declare chunkImage_rows.simps [code]

definition chunkImage ::
  "'w io \<Rightarrow> ImageChunker \<Rightarrow> string \<Rightarrow> 'w st
     \<Rightarrow> ((thrown + ChunkedMapMetadata) \<times> 'w st) option" where
  "chunkImage env this inputPath s =
     (case request (Mkdir (ic_outputDir this)) (fs_mkdir env (ic_outputDir this)) s of
        (Inl e, s1) \<Rightarrow> Some (Inl e, s1)
      | (Inr _, s1) \<Rightarrow>
     (case request (ReadMetadata inputPath) (sharp_metadata env inputPath) s1 of
        (Inl e, s2) \<Rightarrow> Some (Inl e, s2)
      | (Inr (metadata_width, metadata_height), s2) \<Rightarrow>
     (case (metadata_width, metadata_height) of
        (Some width, Some height) \<Rightarrow>
          if width = 0 \<or> height = 0
          then Some (Inl (Error ''Failed to read image dimensions''), s2)
          else
            (let chunksX' = Math_ceil (js_div (Fin (real_of_int width))
                                              (Fin (real_of_int (ic_chunkSize this))));
                 chunksY' = Math_ceil (js_div (Fin (real_of_int height))
                                              (Fin (real_of_int (ic_chunkSize this))))
             in case chunkImage_rows env this inputPath width height chunksX' chunksY' 0 [] s2 of
                  None \<Rightarrow> None
                | Some (Inl e, s3) \<Rightarrow> Some (Inl e, s3)
                | Some (Inr chunks', s3) \<Rightarrow>
                    (let mapMetadata =
                           \<lparr>version = 1, totalWidth = width, totalHeight = height,
                            chunkWidth = ic_chunkSize this, chunkHeight = ic_chunkSize this,
                            chunksX = chunksX', chunksY = chunksY',
                            chunks = chunks', format = ic_format this\<rparr>
                     in case saveMetadata env this mapMetadata s3 of
                          (Inl e, s4) \<Rightarrow> Some (Inl e, s4)
                        | (Inr _, s4) \<Rightarrow> Some (Inr mapMetadata, s4)))
      | _ \<Rightarrow> Some (Inl (Error ''Failed to read image dimensions''), s2))))"

section \<open>The tile compressor (\<^verbatim>\<open>converter/TextureForge.ts\<close>)\<close>

record TextureForge =
  tf_mode :: compression_mode
  tf_quality :: int
  tf_compressionLevel :: int
  tf_mipmaps :: bool
  tf_normalMap :: bool
  tf_toktxPath :: string

definition TextureForge_new :: "ConversionOptions \<Rightarrow> TextureForge" where
  "TextureForge_new options =
     \<lparr>tf_mode = cv_mode options,
      tf_quality = nullish (cv_quality options) 128,
      tf_compressionLevel = nullish (cv_compressionLevel options) 2,
      tf_mipmaps = nullish (cv_mipmaps options) False,
      tf_normalMap = nullish (cv_normalMap options) False,
      tf_toktxPath = nullish (cv_toktxPath options) ''toktx''\<rparr>"

definition buildToktxCommand :: "TextureForge \<Rightarrow> string \<Rightarrow> string \<Rightarrow> string" where
  "buildToktxCommand this inputPath outputPath =
     (let args =
            (case tf_mode this of
               etc1s \<Rightarrow> [''--bcmp'', ''--clevel'', js_String (tf_compressionLevel this),
                         ''--qlevel'', js_String (tf_quality this),
                         ''--max_endpoints'', ''16128'', ''--max_selectors'', ''16128'']
             | uastc \<Rightarrow> [''--uastc'', ''--uastc_quality'', ''2'', ''--zcmp'', ''19''])
            @ (if tf_mipmaps this then [''--genmipmap''] else [])
            @ (if tf_normalMap this then [''--normal_map''] else [])
            @ [''--t2'', ''--threads'', ''0'', outputPath, inputPath]
      in tf_toktxPath this @ '' '' @ join_space args)"

text \<open>
  The \<^verbatim>\<open>try\<close> block of \<^verbatim>\<open>convertFile\<close>: every \<^verbatim>\<open>await\<close> that can reject is a
  branch that leaves with the thrown value.
\<close>

definition convertFile_try ::
  "'w io \<Rightarrow> TextureForge \<Rightarrow> string \<Rightarrow> string option \<Rightarrow> int \<Rightarrow> 'w st
     \<Rightarrow> (thrown + ConversionResult) \<times> 'w st" where
  "convertFile_try env this inputPath outputPath startTime s =
     (case request (Access inputPath) (fs_access env inputPath) s of
        (Inl e, s1) \<Rightarrow> (Inl e, s1)
      | (Inr _, s1) \<Rightarrow>
     (case request (Stat inputPath) (fs_stat env inputPath) s1 of
        (Inl e, s2) \<Rightarrow> (Inl e, s2)
      | (Inr originalSize', s2) \<Rightarrow>
     (let outputFilePath = nullish outputPath (replace_image_ext inputPath);
          command = buildToktxCommand this inputPath outputFilePath
      in case request (Exec command) (execAsync env command) s2 of
        (Inl e, s3) \<Rightarrow> (Inl e, s3)
      | (Inr _, s3) \<Rightarrow>
     (case request (Stat outputFilePath) (fs_stat env outputFilePath) s3 of
        (Inl e, s4) \<Rightarrow> (Inl e, s4)
      | (Inr compressedSize', s4) \<Rightarrow>
     (let compressionRatio' =
            js_mul (js_sub (Fin 1) (js_div (Fin (real_of_int compressedSize'))
                                           (Fin (real_of_int originalSize')))) (Fin 100);
          duration' = Date_now env (world s4) - startTime
      in (Inr \<lparr>success = True, inputFile = inputPath, outputFile = outputFilePath,
               originalSize = originalSize', compressedSize = compressedSize',
               compressionRatio = compressionRatio', mode = tf_mode this,
               duration = duration', error = None\<rparr>, s4))))))"

fun errorMessage :: "thrown \<Rightarrow> string" where
  "errorMessage (Error message) = message"
| "errorMessage (NonError text) = text"

text \<open>\<^verbatim>\<open>convertFile\<close>: the \<^verbatim>\<open>try\<close> block and its \<^verbatim>\<open>catch\<close>.\<close>

definition convertFile ::
  "'w io \<Rightarrow> TextureForge \<Rightarrow> string \<Rightarrow> string option \<Rightarrow> 'w st
     \<Rightarrow> (thrown + ConversionResult) \<times> 'w st" where
  "convertFile env this inputPath outputPath s =
     (let startTime = Date_now env (world s)
      in case convertFile_try env this inputPath outputPath startTime s of
           (Inr result, s') \<Rightarrow> (Inr result, s')
         | (Inl e, s') \<Rightarrow>
             (let duration' = Date_now env (world s') - startTime
              in (Inr \<lparr>success = False, inputFile = inputPath,
                       outputFile = nullish outputPath (replace_image_ext inputPath),
                       originalSize = 0, compressedSize = 0, compressionRatio = Fin 0,
                       mode = tf_mode this, duration = duration',
                       error = Some (errorMessage e)\<rparr>, s')))"

section \<open>The orchestrator (\<^verbatim>\<open>core/orchestrator.ts\<close>)\<close>

text \<open>
  The compress loop of \<^verbatim>\<open>processMapToKTX2\<close>, over the chunks still to visit. The
  chunks already visited (with their filenames as the loop left them), the outcomes and
  the two running totals are carried along.
\<close>

fun compress_loop ::
  "'w io \<Rightarrow> TextureForge \<Rightarrow> string \<Rightarrow> string \<Rightarrow> ChunkMetadata list \<Rightarrow> ChunkMetadata list
     \<Rightarrow> ConversionResult list \<Rightarrow> int \<Rightarrow> int \<Rightarrow> 'w st
     \<Rightarrow> (thrown + ChunkMetadata list \<times> ConversionResult list \<times> int \<times> int) \<times> 'w st" where
  "compress_loop env forge chunksDir ktx2Dir [] visited conversions' totalO totalC s =
     (Inr (visited, conversions', totalO, totalC), s)"
| "compress_loop env forge chunksDir ktx2Dir (chunk # rest) visited conversions' totalO totalC s =
     (let inputPath = path_join chunksDir (c_filename chunk);
          outputPath = path_join ktx2Dir (js_replace ''.png'' ''.ktx2'' (c_filename chunk))
      in case convertFile env forge inputPath (Some outputPath) s of
           (Inl e, s') \<Rightarrow> (Inl e, s')
         | (Inr result, s') \<Rightarrow>
             if success result
             then compress_loop env forge chunksDir ktx2Dir rest
                    (visited @ [chunk\<lparr>c_filename :=
                                        js_replace ''.png'' ''.ktx2'' (c_filename chunk)\<rparr>])
                    (conversions' @ [result])
                    (totalO + originalSize result) (totalC + compressedSize result) s'
             else compress_loop env forge chunksDir ktx2Dir rest (visited @ [chunk])
                    (conversions' @ [result]) totalO totalC s')"

definition processMapToKTX2 ::
  "'w io \<Rightarrow> ProcessOptions \<Rightarrow> 'w st \<Rightarrow> ((thrown + ProcessResult) \<times> 'w st) option" where
  "processMapToKTX2 env options s =
     (let chunksDir = path_join (po_outputDir options) ''chunks_temp'';
          chunker = ImageChunker_new
                      \<lparr>co_chunkSize = Some (nullish (po_chunkSize options) 1024),
                       co_outputDir = chunksDir, co_format = Some png\<rparr>
      in case chunkImage env chunker (po_input options) s of
           None \<Rightarrow> None
         | Some (Inl e, s1) \<Rightarrow> Some (Inl e, s1)
         | Some (Inr metadata', s1) \<Rightarrow>
     (let forge = TextureForge_new
                    \<lparr>cv_mode = nullish (po_mode options) etc1s,
                     cv_quality = Some (nullish (po_quality options) 128),
                     cv_compressionLevel = Some (nullish (po_compressionLevel options) 2),
                     cv_mipmaps = Some (nullish (po_mipmaps options) False),
                     cv_normalMap = None, cv_toktxPath = None\<rparr>;
          ktx2Dir = path_join (po_outputDir options) ''chunks''
      in case request (Mkdir ktx2Dir) (fs_mkdir env ktx2Dir) s1 of
           (Inl e, s2) \<Rightarrow> Some (Inl e, s2)
         | (Inr _, s2) \<Rightarrow>
     (case compress_loop env forge chunksDir ktx2Dir (chunks metadata') [] [] 0 0 s2 of
           (Inl e, s3) \<Rightarrow> Some (Inl e, s3)
         | (Inr (chunks', conversions', totalO, totalC), s3) \<Rightarrow>
     (case request (Rm chunksDir) (fs_rm env chunksDir) s3 of
           (Inl e, s4) \<Rightarrow> Some (Inl e, s4)
         | (Inr _, s4) \<Rightarrow>
     (let metadata'' = metadata'\<lparr>chunks := chunks', format := ktx2\<rparr>;
          metadataPath = path_join ktx2Dir ''metadata.json''
      in case request (WriteFile metadataPath (JSON_stringify metadata''))
                (fs_writeFile env metadataPath (JSON_stringify metadata'')) s4 of
           (Inl e, s5) \<Rightarrow> Some (Inl e, s5)
         | (Inr _, s5) \<Rightarrow>
             Some (Inr \<lparr>metadata = metadata'', conversions = conversions',
                        totalOriginalSize = totalO, totalCompressedSize = totalC,
                        totalSaved = totalO - totalC,
                        pr_compressionRatio =
                          js_mul (js_sub (Fin 1) (js_div (Fin (real_of_int totalC))
                                                         (Fin (real_of_int totalO))))
                                 (Fin 100)\<rparr>, s5))))))"

section \<open>Notions in which the properties are stated\<close>

text \<open>\<open>ceil_div a b\<close> is \<open>ceil(a / b)\<close> as a count (zero when the quotient is not positive).\<close>

definition ceil_div :: "int \<Rightarrow> int \<Rightarrow> nat" where
  "ceil_div a b = nat \<lceil>real_of_int a / real_of_int b\<rceil>"

text \<open>The row-major scan of a grid of \<open>nx\<close> columns and \<open>ny\<close> rows, as (column, row) pairs.\<close>

definition row_major :: "nat \<Rightarrow> nat \<Rightarrow> (nat \<times> nat) list" where
  "row_major nx ny = concat (map (\<lambda>row. map (\<lambda>col. (col, row)) [0..<nx]) [0..<ny])"

text \<open>The metadata \<^verbatim>\<open>createChunk\<close> returns for the cell (col, row), and the request it makes.\<close>

definition chunk_at :: "ImageChunker \<Rightarrow> int \<Rightarrow> int \<Rightarrow> nat \<Rightarrow> nat \<Rightarrow> ChunkMetadata" where
  "chunk_at this W H col row =
     \<lparr>c_id = js_String (int col) @ ''_'' @ js_String (int row),
      c_x = int col, c_y = int row,
      c_pixelX = int col * ic_chunkSize this, c_pixelY = int row * ic_chunkSize this,
      c_width = min (ic_chunkSize this) (W - int col * ic_chunkSize this),
      c_height = min (ic_chunkSize this) (H - int row * ic_chunkSize this),
      c_filename = (js_String (int col) @ ''_'' @ js_String (int row)) @ ''.''
                     @ format_name (ic_format this)\<rparr>"

definition extract_event :: "ImageChunker \<Rightarrow> string \<Rightarrow> int \<Rightarrow> int \<Rightarrow> nat \<Rightarrow> nat \<Rightarrow> event" where
  "extract_event this img W H col row =
     ExtractToFile img (c_pixelX (chunk_at this W H col row)) (c_pixelY (chunk_at this W H col row))
       (c_width (chunk_at this W H col row)) (c_height (chunk_at this W H col row))
       (path_join (ic_outputDir this) (c_filename (chunk_at this W H col row)))"

definition grid :: "ImageChunker \<Rightarrow> int \<Rightarrow> int \<Rightarrow> ChunkMetadata list" where
  "grid this W H =
     map (\<lambda>(col, row). chunk_at this W H col row)
       (row_major (ceil_div W (ic_chunkSize this)) (ceil_div H (ic_chunkSize this)))"

text \<open>The two loops of \<^verbatim>\<open>chunkImage\<close> over given lists of indices: their finite runs.\<close>

fun cols_run ::
  "'w io \<Rightarrow> ImageChunker \<Rightarrow> string \<Rightarrow> int \<Rightarrow> int \<Rightarrow> nat \<Rightarrow> nat list
     \<Rightarrow> ChunkMetadata list \<Rightarrow> 'w st \<Rightarrow> (thrown + ChunkMetadata list) \<times> 'w st" where
  "cols_run env this img W H row [] cs s = (Inr cs, s)"
| "cols_run env this img W H row (col # cols) cs s =
     (case createChunk env this img col row W H s of
        (Inl e, s') \<Rightarrow> (Inl e, s')
      | (Inr chunk, s') \<Rightarrow> cols_run env this img W H row cols (cs @ [chunk]) s')"

fun rows_run ::
  "'w io \<Rightarrow> ImageChunker \<Rightarrow> string \<Rightarrow> int \<Rightarrow> int \<Rightarrow> nat \<Rightarrow> nat list
     \<Rightarrow> ChunkMetadata list \<Rightarrow> 'w st \<Rightarrow> (thrown + ChunkMetadata list) \<times> 'w st" where
  "rows_run env this img W H nx [] cs s = (Inr cs, s)"
| "rows_run env this img W H nx (row # rows) cs s =
     (case cols_run env this img W H row [0..<nx] cs s of
        (Inl e, s') \<Rightarrow> (Inl e, s')
      | (Inr cs', s') \<Rightarrow> rows_run env this img W H nx rows cs' s')"

text \<open>
  Notions for reasoning about joined paths: a plain file or directory name, an absolute
  path, the text \<^verbatim>\<open>path.join\<close> puts in front of a plain name joined to a directory,
  and the shape of a normalised list of segments (every \<^verbatim>\<open>..\<close> at the front).
\<close>

definition plain_name :: "string \<Rightarrow> bool" where
  "plain_name n \<longleftrightarrow> n \<noteq> [] \<and> CHR ''/'' \<notin> set n \<and> n \<noteq> ''.'' \<and> n \<noteq> ''..''"

definition is_absolute :: "string \<Rightarrow> bool" where
  "is_absolute d \<longleftrightarrow> d \<noteq> [] \<and> hd d = CHR ''/''"

definition dir_prefix :: "string \<Rightarrow> string" where
  "dir_prefix d =
     (if is_absolute d then ''/'' else [])
     @ concat (map (\<lambda>seg. seg @ ''/'')
         (normalizeString (\<not> is_absolute d) (split_on CHR ''/'' d) []))"

fun up_prefix :: "string list \<Rightarrow> bool" where
  "up_prefix [] = True"
| "up_prefix (seg # segs) = (if seg = ''..'' then up_prefix segs else ''..'' \<notin> set segs)"

definition normal_stack :: "bool \<Rightarrow> string list \<Rightarrow> bool" where
  "normal_stack allowAboveRoot res \<longleftrightarrow>
     (\<forall>seg \<in> set res. seg \<noteq> [] \<and> CHR ''/'' \<notin> set seg \<and> seg \<noteq> ''.'') \<and>
     up_prefix res \<and> (\<not> allowAboveRoot \<longrightarrow> ''..'' \<notin> set res)"

text \<open>The pixel (px, py) lies in the rectangle of a chunk.\<close>

definition in_rect :: "ChunkMetadata \<Rightarrow> int \<Rightarrow> int \<Rightarrow> bool" where
  "in_rect c px py \<longleftrightarrow>
     c_pixelX c \<le> px \<and> px < c_pixelX c + c_width c \<and>
     c_pixelY c \<le> py \<and> py < c_pixelY c + c_height c"

text \<open>Requests that write a manifest, and requests that open a compressor invocation.\<close>

fun is_write :: "event \<Rightarrow> bool" where
  "is_write (WriteFile _ _) = True"
| "is_write _ = False"

fun is_access :: "event \<Rightarrow> bool" where
  "is_access (Access _) = True"
| "is_access _ = False"

text \<open>
  A scripted environment for running the pipeline on concrete inputs: the image has the
  given dimensions, the files listed as \<open>missing\<close> cannot be accessed, a \<^verbatim>\<open>.png\<close> file
  has 100 bytes and any other file 40, and the cleanup succeeds or not as \<open>rm_ok\<close> says.
\<close>

definition sim_io :: "int option \<Rightarrow> int option \<Rightarrow> string list \<Rightarrow> bool \<Rightarrow> unit io" where
  "sim_io w h missing rm_ok =
     \<lparr>fs_mkdir = (\<lambda>p u. (Inr (), u)),
      fs_writeFile = (\<lambda>p j u. (Inr (), u)),
      fs_rm = (\<lambda>p u. if rm_ok then (Inr (), u) else (Inl (Error ''EPERM''), u)),
      fs_access = (\<lambda>p u. if p \<in> set missing then (Inl (Error ''ENOENT''), u) else (Inr (), u)),
      fs_stat = (\<lambda>p u. (Inr (if suffix ''.png'' p then 100 else 40), u)),
      sharp_metadata = (\<lambda>p u. (Inr (w, h), u)),
      sharp_extract_toFile = (\<lambda>p l t w h f u. (Inr (), u)),
      execAsync = (\<lambda>c u. (Inr (), u)),
      Date_now = (\<lambda>u. 0)\<rparr>"

definition start :: "unit st" where
  "start = \<lparr>world = (), trace = []\<rparr>"

text \<open>A concrete chunker and the manifest it produces for a 3 x 2 image cut into 2 x 2 tiles.\<close>

definition demo_chunker :: ImageChunker where
  "demo_chunker =
     ImageChunker_new \<lparr>co_chunkSize = Some 2, co_outputDir = ''out'', co_format = None\<rparr>"

definition demo_manifest :: ChunkedMapMetadata where
  "demo_manifest =
     \<lparr>version = 1, totalWidth = 3, totalHeight = 2, chunkWidth = 2, chunkHeight = 2,
      chunksX = Fin 2, chunksY = Fin 1,
      chunks =
        [\<lparr>c_id = ''0_0'', c_x = 0, c_y = 0, c_pixelX = 0, c_pixelY = 0,
          c_width = 2, c_height = 2, c_filename = ''0_0.png''\<rparr>,
         \<lparr>c_id = ''1_0'', c_x = 1, c_y = 0, c_pixelX = 2, c_pixelY = 0,
          c_width = 1, c_height = 2, c_filename = ''1_0.png''\<rparr>],
      format = png\<rparr>"

definition demo_state :: "unit st" where
  "demo_state =
     \<lparr>world = (),
      trace = [Mkdir ''out'', ReadMetadata ''in.png'',
               ExtractToFile ''in.png'' 0 0 2 2 ''out/0_0.png'',
               ExtractToFile ''in.png'' 2 0 1 2 ''out/1_0.png'',
               WriteFile ''out/metadata.json'' (JSON_stringify demo_manifest)]\<rparr>"

text \<open>The chunker and the compressor \<^verbatim>\<open>processMapToKTX2\<close> builds from its options.\<close>

definition pipeline_chunker :: "ProcessOptions \<Rightarrow> ImageChunker" where
  "pipeline_chunker options =
     ImageChunker_new
       \<lparr>co_chunkSize = Some (nullish (po_chunkSize options) 1024),
        co_outputDir = path_join (po_outputDir options) ''chunks_temp'',
        co_format = Some png\<rparr>"

definition pipeline_forge :: "ProcessOptions \<Rightarrow> TextureForge" where
  "pipeline_forge options =
     TextureForge_new
       \<lparr>cv_mode = nullish (po_mode options) etc1s,
        cv_quality = Some (nullish (po_quality options) 128),
        cv_compressionLevel = Some (nullish (po_compressionLevel options) 2),
        cv_mipmaps = Some (nullish (po_mipmaps options) False),
        cv_normalMap = None, cv_toktxPath = None\<rparr>"

text \<open>What the compress loop does to a manifest entry, given the outcome for its tile.\<close>

definition renamed :: "ChunkMetadata \<Rightarrow> ConversionResult \<Rightarrow> ChunkMetadata" where
  "renamed c r =
     (if success r then c\<lparr>c_filename := js_replace ''.png'' ''.ktx2'' (c_filename c)\<rparr> else c)"

text \<open>A compressor with the default settings, for running \<^verbatim>\<open>convertFile\<close> on its own.\<close>

definition demo_forge :: TextureForge where
  "demo_forge =
     TextureForge_new
       \<lparr>cv_mode = etc1s, cv_quality = None, cv_compressionLevel = None,
        cv_mipmaps = None, cv_normalMap = None, cv_toktxPath = None\<rparr>"

text \<open>
  A concrete run of the pipeline on the 3 x 2 image with 2 x 2 tiles: its options, the
  outcomes of the two tiles, and the report and request history when the second tile's
  file is missing.
\<close>

definition demo_options :: ProcessOptions where
  "demo_options =
     \<lparr>po_input = ''in.png'', po_outputDir = ''out'', po_chunkSize = Some 2, po_mode = None,
      po_quality = None, po_compressionLevel = None, po_mipmaps = None\<rparr>"

definition demo_converted :: ConversionResult where
  "demo_converted =
     \<lparr>success = True, inputFile = ''out/chunks_temp/0_0.png'',
      outputFile = ''out/chunks/0_0.ktx2'', originalSize = 100, compressedSize = 40,
      compressionRatio = Fin 60, mode = etc1s, duration = 0, error = None\<rparr>"

definition demo_missing :: "string \<Rightarrow> ConversionResult" where
  "demo_missing tile =
     \<lparr>success = False, inputFile = ''out/chunks_temp/'' @ tile @ ''.png'',
      outputFile = ''out/chunks/'' @ tile @ ''.ktx2'', originalSize = 0, compressedSize = 0,
      compressionRatio = Fin 0, mode = etc1s, duration = 0, error = Some ''ENOENT''\<rparr>"

definition demo_final_manifest :: ChunkedMapMetadata where
  "demo_final_manifest =
     \<lparr>version = 1, totalWidth = 3, totalHeight = 2, chunkWidth = 2, chunkHeight = 2,
      chunksX = Fin 2, chunksY = Fin 1,
      chunks =
        [\<lparr>c_id = ''0_0'', c_x = 0, c_y = 0, c_pixelX = 0, c_pixelY = 0,
          c_width = 2, c_height = 2, c_filename = ''0_0.ktx2''\<rparr>,
         \<lparr>c_id = ''1_0'', c_x = 1, c_y = 0, c_pixelX = 2, c_pixelY = 0,
          c_width = 1, c_height = 2, c_filename = ''1_0.png''\<rparr>],
      format = ktx2\<rparr>"

definition demo_report :: ProcessResult where
  "demo_report =
     \<lparr>metadata = demo_final_manifest,
      conversions = [demo_converted, demo_missing ''1_0''],
      totalOriginalSize = 100, totalCompressedSize = 40, totalSaved = 60,
      pr_compressionRatio = Fin 60\<rparr>"

definition demo_final :: "unit st" where
  "demo_final =
     \<lparr>world = (),
      trace =
        [Mkdir ''out/chunks_temp'', ReadMetadata ''in.png'',
         ExtractToFile ''in.png'' 0 0 2 2 ''out/chunks_temp/0_0.png'',
         ExtractToFile ''in.png'' 2 0 1 2 ''out/chunks_temp/1_0.png'',
         WriteFile ''out/chunks_temp/metadata.json'' (JSON_stringify demo_manifest),
         Mkdir ''out/chunks'',
         Access ''out/chunks_temp/0_0.png'', Stat ''out/chunks_temp/0_0.png'',
         Exec (''toktx --bcmp --clevel 2 --qlevel 128 --max_endpoints 16128 ''
               @ ''--max_selectors 16128 --t2 --threads 0 ''
               @ ''out/chunks/0_0.ktx2 out/chunks_temp/0_0.png''),
         Stat ''out/chunks/0_0.ktx2'',
         Access ''out/chunks_temp/1_0.png'',
         Rm ''out/chunks_temp'',
         WriteFile ''out/chunks/metadata.json'' (JSON_stringify demo_final_manifest)]\<rparr>"

text \<open>The report of the same run when both tile files are missing.\<close>

definition demo_failed_report :: ProcessResult where
  "demo_failed_report =
     \<lparr>metadata = demo_manifest\<lparr>format := ktx2\<rparr>,
      conversions = [demo_missing ''0_0'', demo_missing ''1_0''],
      totalOriginalSize = 0, totalCompressedSize = 0, totalSaved = 0,
      pr_compressionRatio = NaN\<rparr>"



text \<open>
  The extract requests of the given cells, made in the given order from the world \<open>w\<close>:
  the world they leave behind when none of them throws.
\<close>

fun extract_all ::
  "'w io \<Rightarrow> ImageChunker \<Rightarrow> string \<Rightarrow> int \<Rightarrow> int \<Rightarrow> (nat \<times> nat) list \<Rightarrow> 'w \<Rightarrow> 'w option" where
  "extract_all env this img W H [] w = Some w"
| "extract_all env this img W H ((col, row) # cells) w =
     (case sharp_extract_toFile env img
             (c_pixelX (chunk_at this W H col row)) (c_pixelY (chunk_at this W H col row))
             (c_width (chunk_at this W H col row)) (c_height (chunk_at this W H col row))
             (path_join (ic_outputDir this) (c_filename (chunk_at this W H col row))) w of
        (Inl e, w') \<Rightarrow> None
      | (Inr u, w') \<Rightarrow> extract_all env this img W H cells w')"

text \<open>The manifest of the grid over a \<open>W \<times> H\<close> image.\<close>

definition grid_manifest :: "ImageChunker \<Rightarrow> int \<Rightarrow> int \<Rightarrow> ChunkedMapMetadata" where
  "grid_manifest this W H =
     \<lparr>version = 1, totalWidth = W, totalHeight = H,
      chunkWidth = ic_chunkSize this, chunkHeight = ic_chunkSize this,
      chunksX = Math_ceil (js_div (Fin (real_of_int W)) (Fin (real_of_int (ic_chunkSize this)))),
      chunksY = Math_ceil (js_div (Fin (real_of_int H)) (Fin (real_of_int (ic_chunkSize this)))),
      chunks = grid this W H, format = ic_format this\<rparr>"

text \<open>
  Requests made by the compressor, and the files the tile extractions of a request
  history were asked to write, oldest first.
\<close>

fun is_convert :: "event \<Rightarrow> bool" where
  "is_convert (Access _) = True"
| "is_convert (Stat _) = True"
| "is_convert (Exec _) = True"
| "is_convert _ = False"

fun tile_writes :: "event list \<Rightarrow> string list" where
  "tile_writes [] = []"
| "tile_writes (ExtractToFile img l t w h f # evs) = f # tile_writes evs"
| "tile_writes (ev # evs) = tile_writes evs"

text \<open>
  A 3 x 3 image cut into 2 x 2 tiles, a grid of two columns and two rows: the manifest
  the chunker returns for it, and the requests it makes.
\<close>

definition demo_grid_manifest :: ChunkedMapMetadata where
  "demo_grid_manifest =
     \<lparr>version = 1, totalWidth = 3, totalHeight = 3, chunkWidth = 2, chunkHeight = 2,
      chunksX = Fin 2, chunksY = Fin 2,
      chunks =
        [\<lparr>c_id = ''0_0'', c_x = 0, c_y = 0, c_pixelX = 0, c_pixelY = 0,
          c_width = 2, c_height = 2, c_filename = ''0_0.png''\<rparr>,
         \<lparr>c_id = ''1_0'', c_x = 1, c_y = 0, c_pixelX = 2, c_pixelY = 0,
          c_width = 1, c_height = 2, c_filename = ''1_0.png''\<rparr>,
         \<lparr>c_id = ''0_1'', c_x = 0, c_y = 1, c_pixelX = 0, c_pixelY = 2,
          c_width = 2, c_height = 1, c_filename = ''0_1.png''\<rparr>,
         \<lparr>c_id = ''1_1'', c_x = 1, c_y = 1, c_pixelX = 2, c_pixelY = 2,
          c_width = 1, c_height = 1, c_filename = ''1_1.png''\<rparr>],
      format = png\<rparr>"

definition demo_grid_trace :: "event list" where
  "demo_grid_trace =
     [Mkdir ''out'', ReadMetadata ''in.png'',
      ExtractToFile ''in.png'' 0 0 2 2 ''out/0_0.png'',
      ExtractToFile ''in.png'' 2 0 1 2 ''out/1_0.png'',
      ExtractToFile ''in.png'' 0 2 2 1 ''out/0_1.png'',
      ExtractToFile ''in.png'' 2 2 1 1 ''out/1_1.png'',
      WriteFile ''out/metadata.json'' (JSON_stringify demo_grid_manifest)]"


definition failing_tool_io :: "unit io" where
  "failing_tool_io =
     (sim_io None None [] True)
       \<lparr>execAsync := (\<lambda>c u. (Inl (NonError ''exit code 1''), u))\<rparr>"


section \<open>Joined paths\<close>

lemma split_on_nonempty: "split_on c s \<noteq> []"
  by (induction s) (auto split: list.splits)

lemma split_on_no_sep: "seg \<in> set (split_on c s) \<Longrightarrow> c \<notin> set seg"
  by (induction s arbitrary: seg) (auto split: list.splits if_splits)

lemma split_on_plain: "c \<notin> set s \<Longrightarrow> split_on c s = [s]"
  by (induction s) auto

lemma split_on_append:
  "c \<notin> set s \<Longrightarrow> split_on c (s @ c # rest) = s # split_on c rest"
  by (induction s) (auto split: list.splits)

lemma split_on_snoc_name:
  "c \<notin> set n \<Longrightarrow> split_on c (d @ c # n) = split_on c d @ [n]"
proof (induction d)
  case Nil
  then show ?case by (simp add: split_on_plain)
next
  case (Cons x d)
  then show ?case
    using split_on_nonempty [of c d] by (auto split: list.splits)
qed

lemma normalizeString_append:
  "normalizeString a (xs @ ys) res = normalizeString a ys (normalizeString a xs res)"
  by (induction a xs res rule: normalizeString.induct) auto

lemma up_prefix_all_up: "up_prefix (xs @ ''..'' # ys) \<Longrightarrow> set xs \<subseteq> {''..''}"
  by (induction xs) (auto split: if_splits)

lemma up_prefix_butlast: "up_prefix res \<Longrightarrow> up_prefix (butlast res)"
  by (induction res) (auto split: if_splits dest: in_set_butlastD)

lemma up_prefix_snoc_name: "up_prefix res \<Longrightarrow> seg \<noteq> ''..'' \<Longrightarrow> up_prefix (res @ [seg])"
  by (induction res) (auto split: if_splits)

lemma up_prefix_last_up:
  "up_prefix res \<Longrightarrow> res \<noteq> [] \<Longrightarrow> last res = ''..'' \<Longrightarrow> set res \<subseteq> {''..''}"
proof (induction res)
  case Nil
  then show ?case by simp
next
  case (Cons seg res)
  show ?case
  proof (cases "res = []")
    case True
    with Cons.prems show ?thesis by simp
  next
    case False
    with Cons.prems have l: "last res = ''..''" by simp
    with False have "''..'' \<in> set res" by (metis last_in_set)
    with Cons.prems have "seg = ''..''" "up_prefix res" by (auto split: if_splits)
    with Cons.IH [OF _ False l] show ?thesis by simp
  qed
qed

lemma up_prefix_snoc_up:
  "set res \<subseteq> {''..''} \<Longrightarrow> up_prefix (res @ [''..''])"
  by (induction res) auto

lemma normalizeString_normal:
  assumes "normal_stack a res" and "\<forall>seg \<in> set segs. CHR ''/'' \<notin> set seg"
  shows "normal_stack a (normalizeString a segs res)"
  using assms
proof (induction segs arbitrary: res)
  case Nil
  then show ?case by simp
next
  case (Cons seg segs)
  from Cons.prems(2) have rest: "\<forall>seg \<in> set segs. CHR ''/'' \<notin> set seg"
    and seg: "CHR ''/'' \<notin> set seg" by simp_all
  consider (skip) "seg = [] \<or> seg = ''.''"
    | (pop) "seg = ''..''" "res \<noteq> []" "last res \<noteq> ''..''"
    | (up) "seg = ''..''" "res = [] \<or> last res = ''..''" "a"
    | (drop) "seg = ''..''" "res = [] \<or> last res = ''..''" "\<not> a"
    | (push) "seg \<noteq> []" "seg \<noteq> ''.''" "seg \<noteq> ''..''"
    by blast
  then show ?case
  proof cases
    case skip
    with Cons.IH [OF Cons.prems(1) rest] show ?thesis by auto
  next
    case pop
    from Cons.prems(1) have "normal_stack a (butlast res)"
      by (auto simp: normal_stack_def up_prefix_butlast dest: in_set_butlastD)
    from Cons.IH [OF this rest] pop show ?thesis by simp
  next
    case up
    from Cons.prems(1) up(2) have "set res \<subseteq> {''..''}"
      by (cases "res = []") (auto simp: normal_stack_def dest: up_prefix_last_up)
    with Cons.prems(1) up(3) have "normal_stack a (res @ [''..''])"
      by (auto simp: normal_stack_def up_prefix_snoc_up)
    from Cons.IH [OF this rest] up show ?thesis by auto
  next
    case drop
    with Cons.IH [OF Cons.prems(1) rest] show ?thesis by auto
  next
    case push
    with Cons.prems(1) seg have "normal_stack a (res @ [seg])"
      by (auto simp: normal_stack_def up_prefix_snoc_name)
    from Cons.IH [OF this rest] push show ?thesis by simp
  qed
qed

lemma normalizeString_idem:
  "normal_stack a (res @ segs) \<Longrightarrow> normalizeString a segs res = res @ segs"
proof (induction segs arbitrary: res)
  case Nil
  then show ?case by simp
next
  case (Cons seg segs)
  from Cons.prems have next_ok: "normal_stack a ((res @ [seg]) @ segs)" by simp
  from Cons.prems have seg: "seg \<noteq> []" "seg \<noteq> ''.''"
    by (simp_all add: normal_stack_def)
  show ?case
  proof (cases "seg = ''..''")
    case True
    with Cons.prems have "set res \<subseteq> {''..''}" and a: "a"
      by (auto simp: normal_stack_def dest: up_prefix_all_up)
    then have "res = [] \<or> last res = ''..''"
      by (cases "res = []") (auto dest: last_in_set)
    with True a Cons.IH [OF next_ok] show ?thesis by auto
  next
    case False
    with seg Cons.IH [OF next_ok] show ?thesis by simp
  qed
qed

lemma normal_stack_Nil: "normal_stack a []"
  by (simp add: normal_stack_def)

lemma normal_stack_of:
  "normal_stack a (normalizeString a (split_on CHR ''/'' d) [])"
  by (rule normalizeString_normal [OF normal_stack_Nil]) (simp add: split_on_no_sep)

lemma join_slash_snoc:
  "join_slash (res @ [n]) = concat (map (\<lambda>seg. seg @ ''/'') res) @ n"
  by (induction res rule: join_slash.induct) simp_all

lemma path_join_plain:
  assumes n: "plain_name n"
  shows "path_join d n = dir_prefix d @ n"
proof (cases "d = []")
  case True
  from n have nn: "n \<noteq> []" and sep: "CHR ''/'' \<notin> set n"
    and nd: "n \<noteq> ''.''" "n \<noteq> ''..''" by (simp_all add: plain_name_def)
  from nn sep have "hd n \<noteq> CHR ''/''" "last n \<noteq> CHR ''/''"
    by (auto dest: hd_in_set last_in_set)
  with True nn nd sep show ?thesis
    by (simp add: path_join_def path_normalize_def dir_prefix_def is_absolute_def
          split_on_plain Let_def)
next
  case False
  let ?j = "d @ CHR ''/'' # n"
  from n have nn: "n \<noteq> []" and sep: "CHR ''/'' \<notin> set n"
    and nd: "n \<noteq> ''.''" "n \<noteq> ''..''" by (simp_all add: plain_name_def)
  from False have hd: "hd ?j = hd d" by simp
  from nn sep have lst: "last ?j \<noteq> CHR ''/''" by (auto dest: last_in_set)
  have "normalizeString a (split_on CHR ''/'' ?j) []
          = normalizeString a (split_on CHR ''/'' d) [] @ [n]" for a
    using nn nd by (simp add: split_on_snoc_name [OF sep] normalizeString_append)
  with False nn hd lst show ?thesis
    by (simp add: path_join_def path_normalize_def dir_prefix_def is_absolute_def Let_def
          join_slash_snoc)
qed

lemma split_on_rendered:
  assumes "\<forall>seg \<in> set res. CHR ''/'' \<notin> set seg" and "CHR ''/'' \<notin> set n"
  shows "split_on CHR ''/'' (concat (map (\<lambda>seg. seg @ ''/'') res) @ n) = res @ [n]"
  using assms
proof (induction res)
  case Nil
  then show ?case by (simp add: split_on_plain)
next
  case (Cons seg res)
  then have "split_on CHR ''/'' (seg @ CHR ''/'' # (concat (map (\<lambda>seg. seg @ ''/'') res) @ n))
               = seg # (res @ [n])"
    by (simp add: split_on_append)
  then show ?case by simp
qed

lemma dir_prefix_join:
  assumes n: "plain_name n"
  shows "dir_prefix (path_join d n) = dir_prefix d @ n @ ''/''"
proof -
  define a where "a = (\<not> is_absolute d)"
  define res where "res = normalizeString a (split_on CHR ''/'' d) []"
  define body where "body = concat (map (\<lambda>seg. seg @ ''/'') res) @ n"
  define lead where "lead = (if is_absolute d then ''/'' else [])"
  from n have nn: "n \<noteq> []" and sep: "CHR ''/'' \<notin> set n"
    and nd: "n \<noteq> ''.''" "n \<noteq> ''..''" by (simp_all add: plain_name_def)
  have ns: "normal_stack a res"
    unfolding res_def by (rule normal_stack_of)
  then have segs: "\<forall>seg \<in> set res. CHR ''/'' \<notin> set seg" and ne: "\<forall>seg \<in> set res. seg \<noteq> []"
    by (simp_all add: normal_stack_def)
  have dp: "dir_prefix d = lead @ concat (map (\<lambda>seg. seg @ ''/'') res)"
    by (simp add: dir_prefix_def lead_def res_def a_def)
  have q: "path_join d n = lead @ body"
    by (simp add: path_join_plain [OF n] dp body_def)
  have body_hd: "body \<noteq> []" "hd body \<noteq> CHR ''/''"
  proof -
    show "body \<noteq> []" using nn by (simp add: body_def)
    show "hd body \<noteq> CHR ''/''"
    proof (cases res)
      case Nil
      with nn sep show ?thesis by (cases n) (auto simp: body_def)
    next
      case (Cons seg rest)
      with segs ne have "seg \<noteq> []" "CHR ''/'' \<notin> set seg" by simp_all
      with Cons show ?thesis by (cases seg) (auto simp: body_def)
    qed
  qed
  have abs: "is_absolute (path_join d n) = is_absolute d"
  proof (cases "is_absolute d")
    case True
    then show ?thesis by (simp add: q lead_def) (simp add: is_absolute_def)
  next
    case False
    with body_hd show ?thesis by (simp add: q lead_def) (simp add: is_absolute_def)
  qed
  have sp: "split_on CHR ''/'' body = res @ [n]"
    unfolding body_def by (rule split_on_rendered [OF segs sep])
  have ns': "normal_stack a ([] @ res @ [n])"
    using ns nn sep nd by (auto simp: normal_stack_def up_prefix_snoc_name)
  have idem: "normalizeString a (res @ [n]) [] = res @ [n]"
    using normalizeString_idem [OF ns'] by simp
  have F: "normalizeString a (split_on CHR ''/'' (path_join d n)) [] = res @ [n]"
  proof (cases "is_absolute d")
    case True
    then have "split_on CHR ''/'' (lead @ body) = [] # (res @ [n])"
      by (simp add: lead_def sp)
    then show ?thesis by (simp add: q idem)
  next
    case False
    then have "split_on CHR ''/'' (lead @ body) = res @ [n]"
      by (simp add: lead_def sp)
    then show ?thesis by (simp add: q idem)
  qed
  have "dir_prefix (path_join d n)
          = lead @ concat (map (\<lambda>seg. seg @ ''/'')
              (normalizeString a (split_on CHR ''/'' (path_join d n)) []))"
    unfolding dir_prefix_def [of "path_join d n"] abs lead_def a_def ..
  then show ?thesis by (simp add: F dp)
qed

lemma path_join_plain_inj:
  "plain_name n \<Longrightarrow> plain_name n' \<Longrightarrow> path_join d n = path_join d n' \<Longrightarrow> n = n'"
  by (simp add: path_join_plain)

lemma nested_join_differs:
  assumes "plain_name sub" and "plain_name n"
  shows "path_join (path_join d sub) n \<noteq> path_join d n"
  unfolding path_join_plain [OF assms(2), of "path_join d sub"] dir_prefix_join [OF assms(1)]
    path_join_plain [OF assms(2), of d]
  by simp

lemma sibling_join_differs:
  assumes "plain_name sub" and "plain_name sub'" and "plain_name n" and "sub \<noteq> sub'"
  shows "path_join (path_join d sub) n \<noteq> path_join (path_join d sub') n"
proof
  assume "path_join (path_join d sub) n = path_join (path_join d sub') n"
  then have "sub @ ''/'' = sub' @ ''/''"
    unfolding path_join_plain [OF assms(3), of "path_join d sub"] dir_prefix_join [OF assms(1)]
      path_join_plain [OF assms(3), of "path_join d sub'"] dir_prefix_join [OF assms(2)]
    by simp
  then show False using assms(4) by simp
qed

section \<open>The loops of the chunker\<close>

lemma Math_ceil_div_Fin:
  "S \<noteq> 0 \<Longrightarrow>
   Math_ceil (js_div (Fin (real_of_int W)) (Fin (real_of_int S)))
     = Fin (real_of_int \<lceil>real_of_int W / real_of_int S\<rceil>)"
  by simp

lemma js_lt_bound: "real n < real_of_int z \<longleftrightarrow> n < nat z"
proof -
  have "real n < real_of_int z \<longleftrightarrow> int n < z"
    by (metis of_int_less_iff of_int_of_nat_eq)
  then show ?thesis by linarith
qed

lemma createChunk_trace:
  "createChunk env this img col row W H s = (r, s') \<Longrightarrow>
   trace s' = trace s @ [extract_event this img W H col row]"
  by (auto simp: createChunk_def request_def extract_event_def chunk_at_def Let_def
           split: prod.splits sum.splits)

lemma createChunk_Inr:
  "createChunk env this img col row W H s = (Inr c, s') \<Longrightarrow> c = chunk_at this W H col row"
  by (auto simp: createChunk_def request_def chunk_at_def Let_def
           split: prod.splits sum.splits)

lemma cols_run_Inr:
  "cols_run env this img W H row cols cs s = (Inr cs', s') \<Longrightarrow>
   cs' = cs @ map (\<lambda>col. chunk_at this W H col row) cols \<and>
   trace s' = trace s @ map (\<lambda>col. extract_event this img W H col row) cols"
proof (induction cols arbitrary: cs s)
  case Nil
  then show ?case by simp
next
  case (Cons col cols)
  from Cons.prems obtain c s1 where
    cc: "createChunk env this img col row W H s = (Inr c, s1)" and
    rest: "cols_run env this img W H row cols (cs @ [c]) s1 = (Inr cs', s')"
    by (auto split: prod.splits sum.splits)
  from Cons.IH [OF rest] createChunk_Inr [OF cc] createChunk_trace [OF cc]
  show ?case by simp
qed

lemma rows_run_Inr:
  "rows_run env this img W H nx rows cs s = (Inr cs', s') \<Longrightarrow>
   cs' = cs @ concat (map (\<lambda>row. map (\<lambda>col. chunk_at this W H col row) [0..<nx]) rows) \<and>
   trace s' = trace s @ concat (map (\<lambda>row. map (\<lambda>col. extract_event this img W H col row) [0..<nx]) rows)"
proof (induction rows arbitrary: cs s)
  case Nil
  then show ?case by simp
next
  case (Cons row rows)
  from Cons.prems obtain cs1 s1 where
    cc: "cols_run env this img W H row [0..<nx] cs s = (Inr cs1, s1)" and
    rest: "rows_run env this img W H nx rows cs1 s1 = (Inr cs', s')"
    by (auto split: prod.splits sum.splits)
  from Cons.IH [OF rest] cols_run_Inr [OF cc]
  show ?case by simp
qed

lemma chunkImage_cols_finite:
  "chunkImage_cols env this img W H (Fin (real_of_int z)) row col cs s
     = Some (cols_run env this img W H row [col..<nat z] cs s)"
proof (induction "nat z - col" arbitrary: col cs s)
  case 0
  then have "\<not> col < nat z" by simp
  then show ?case
    by (subst chunkImage_cols.simps) (simp add: js_lt_bound)
next
  case (Suc k)
  then have lt: "col < nat z" and k: "k = nat z - Suc col" by simp_all
  show ?case
    by (subst chunkImage_cols.simps)
       (simp add: js_lt_bound lt upt_conv_Cons Suc.hyps(1) [OF k] split: prod.splits sum.splits)
qed

lemma chunkImage_rows_finite:
  "chunkImage_rows env this img W H (Fin (real_of_int zx)) (Fin (real_of_int zy)) row cs s
     = Some (rows_run env this img W H (nat zx) [row..<nat zy] cs s)"
proof (induction "nat zy - row" arbitrary: row cs s)
  case 0
  then have "\<not> row < nat zy" by simp
  then show ?case
    by (subst chunkImage_rows.simps) (simp add: js_lt_bound)
next
  case (Suc k)
  then have lt: "row < nat zy" and k: "k = nat zy - Suc row" by simp_all
  show ?case
    by (subst chunkImage_rows.simps)
       (simp add: js_lt_bound lt upt_conv_Cons chunkImage_cols_finite Suc.hyps(1) [OF k]
             split: prod.splits sum.splits)
qed

lemma chunkImage_rows_PosInf:
  assumes "chunkImage_rows env this img W H cx PosInf row cs s = Some r"
  shows "\<exists>e. fst r = Inl e"
proof -
  have "PosInf = PosInf \<longrightarrow> (\<exists>e. fst r = Inl e)"
    by (rule chunkImage_rows.raw_induct
          [where P = "\<lambda>env this img W H cx cy row cs s r. cy = PosInf \<longrightarrow> (\<exists>e. fst r = Inl e)",
           OF _ assms])
       (auto split: if_splits option.splits prod.splits sum.splits)
  then show ?thesis by simp
qed

section \<open>What a run of the chunker returns\<close>

lemma concat_row_major:
  "concat (map (\<lambda>row. map (\<lambda>col. f col row) [0..<nx]) [0..<ny])
     = map (\<lambda>(col, row). f col row) (row_major nx ny)"
  by (simp add: row_major_def map_concat comp_def)

lemma chunkImage_rows_grid:
  assumes run: "chunkImage_rows env this img W H
                (Math_ceil (js_div (Fin (real_of_int W)) (Fin (real_of_int (ic_chunkSize this)))))
                (Math_ceil (js_div (Fin (real_of_int H)) (Fin (real_of_int (ic_chunkSize this)))))
                0 [] s = Some (Inr cs, s')"
    and W: "W \<noteq> 0" and H: "H \<noteq> 0"
  shows "cs = grid this W H \<and>
         trace s' = trace s @ map (\<lambda>(col, row). extract_event this img W H col row)
                      (row_major (ceil_div W (ic_chunkSize this)) (ceil_div H (ic_chunkSize this))) \<and>
         (ic_chunkSize this = 0 \<longrightarrow> H < 0)"
proof (cases "ic_chunkSize this = 0")
  case False
  from run have "rows_run env this img W H (ceil_div W (ic_chunkSize this))
                   [0..<ceil_div H (ic_chunkSize this)] [] s = (Inr cs, s')"
    unfolding Math_ceil_div_Fin [OF False] chunkImage_rows_finite
    by (simp add: ceil_div_def)
  from rows_run_Inr [OF this] False show ?thesis
    by (simp add: concat_row_major grid_def)
next
  case True
  show ?thesis
  proof (cases "0 < H")
    case True
    with \<open>ic_chunkSize this = 0\<close> run
    have "chunkImage_rows env this img W H
            (Math_ceil (js_div (Fin (real_of_int W)) (Fin 0))) PosInf 0 [] s = Some (Inr cs, s')"
      by simp
    from chunkImage_rows_PosInf [OF this] show ?thesis by simp
  next
    case False
    with H have neg: "H < 0" by simp
    with \<open>ic_chunkSize this = 0\<close> run have "cs = [] \<and> s' = s"
      by (subst (asm) chunkImage_rows.simps) simp
    with neg \<open>ic_chunkSize this = 0\<close> show ?thesis
      by (simp add: grid_def row_major_def ceil_div_def)
  qed
qed

lemma chunkImage_Inr:
  assumes run: "chunkImage env this inputPath s = Some (Inr m, s')"
  shows "totalWidth m \<noteq> 0 \<and> totalHeight m \<noteq> 0 \<and>
         version m = 1 \<and>
         chunkWidth m = ic_chunkSize this \<and> chunkHeight m = ic_chunkSize this \<and>
         chunksX m = Math_ceil (js_div (Fin (real_of_int (totalWidth m)))
                                       (Fin (real_of_int (ic_chunkSize this)))) \<and>
         chunksY m = Math_ceil (js_div (Fin (real_of_int (totalHeight m)))
                                       (Fin (real_of_int (ic_chunkSize this)))) \<and>
         chunks m = grid this (totalWidth m) (totalHeight m) \<and>
         format m = ic_format this \<and>
         (ic_chunkSize this = 0 \<longrightarrow> totalHeight m < 0) \<and>
         trace s' = trace s @ [Mkdir (ic_outputDir this), ReadMetadata inputPath]
           @ map (\<lambda>(col, row). extract_event this inputPath (totalWidth m) (totalHeight m) col row)
               (row_major (ceil_div (totalWidth m) (ic_chunkSize this))
                          (ceil_div (totalHeight m) (ic_chunkSize this)))
           @ [WriteFile (path_join (ic_outputDir this) ''metadata.json'') (JSON_stringify m)]"
  using run
  apply (clarsimp simp: chunkImage_def request_def saveMetadata_def Let_def
             simp del: js_div.simps Math_ceil.simps
             split: prod.splits sum.splits option.splits if_splits)
  apply (drule chunkImage_rows_grid; simp del: js_div.simps Math_ceil.simps)
  done

section \<open>The row-major scan\<close>

lemma row_major_Suc:
  "row_major nx (Suc ny) = row_major nx ny @ map (\<lambda>col. (col, ny)) [0..<nx]"
  by (simp add: row_major_def)

lemma length_row_major: "length (row_major nx ny) = nx * ny"
  by (induction ny) (simp_all add: row_major_Suc row_major_def)

lemma nth_row_major:
  "i < nx * ny \<Longrightarrow> row_major nx ny ! i = (i mod nx, i div nx)"
proof (induction ny)
  case 0
  then show ?case by simp
next
  case (Suc ny)
  show ?case
  proof (cases "i < nx * ny")
    case True
    with Suc.IH show ?thesis
      by (simp add: row_major_Suc nth_append length_row_major)
  next
    case False
    with Suc.prems have lo: "nx * ny \<le> i" and hi: "i - nx * ny < nx" by simp_all
    then have nx: "0 < nx" by simp
    from lo hi have d: "i div nx = ny"
      by (metis Suc.prems div_nat_eqI)
    have "i mod nx = i - nx * ny"
      using d by (metis minus_mult_div_eq_mod)
    with lo hi d show ?thesis
      by (simp add: row_major_Suc nth_append length_row_major)
  qed
qed

lemma set_row_major: "set (row_major nx ny) = {0..<nx} \<times> {0..<ny}"
  by (auto simp: row_major_def)

lemma distinct_row_major: "distinct (row_major nx ny)"
proof (induction ny)
  case 0
  then show ?case by (simp add: row_major_def)
next
  case (Suc ny)
  have "distinct (map (\<lambda>col. (col, ny)) [0..<nx])"
    by (simp add: distinct_map inj_on_def)
  with Suc show ?case
    by (auto simp: row_major_Suc set_row_major)
qed

lemma length_grid:
  "length (grid this W H) = ceil_div W (ic_chunkSize this) * ceil_div H (ic_chunkSize this)"
  by (simp add: grid_def length_row_major)

lemma nth_grid:
  "i < ceil_div W (ic_chunkSize this) * ceil_div H (ic_chunkSize this) \<Longrightarrow>
   grid this W H ! i
     = chunk_at this W H (i mod ceil_div W (ic_chunkSize this)) (i div ceil_div W (ic_chunkSize this))"
  by (simp add: grid_def length_row_major nth_row_major)

lemma nth_grid_cell:
  assumes "col < ceil_div W (ic_chunkSize this)" and "row < ceil_div H (ic_chunkSize this)"
  shows "row * ceil_div W (ic_chunkSize this) + col
           < ceil_div W (ic_chunkSize this) * ceil_div H (ic_chunkSize this)"
    and "grid this W H ! (row * ceil_div W (ic_chunkSize this) + col) = chunk_at this W H col row"
proof -
  let ?nx = "ceil_div W (ic_chunkSize this)" and ?ny = "ceil_div H (ic_chunkSize this)"
  have "row * ?nx + col < row * ?nx + ?nx" using assms(1) by simp
  also have "\<dots> = ?nx * Suc row" by simp
  also have "\<dots> \<le> ?nx * ?ny" using assms(2) by (intro mult_le_mono2) simp
  finally show lt: "row * ?nx + col < ?nx * ?ny" .
  from assms(1) have "(row * ?nx + col) mod ?nx = col" "(row * ?nx + col) div ?nx = row"
    by simp_all
  with nth_grid [OF lt] show "grid this W H ! (row * ?nx + col) = chunk_at this W H col row"
    by simp
qed

section \<open>Decimal numerals and chunk names\<close>

lemma of_char_digit_char: "d < 10 \<Longrightarrow> (of_char (digit_char d) :: nat) = 48 + d"
  by (simp add: digit_char_def)

lemma digit_char_inj: "d < 10 \<Longrightarrow> d' < 10 \<Longrightarrow> digit_char d = digit_char d' \<Longrightarrow> d = d'"
proof -
  assume d: "d < 10" and d': "d' < 10" and eq: "digit_char d = digit_char d'"
  from eq have "(of_char (digit_char d) :: nat) = of_char (digit_char d')" by simp
  then show "d = d'" by (simp add: of_char_digit_char [OF d] of_char_digit_char [OF d'])
qed

lemma digit_char_not_sep:
  assumes d: "d < 10"
  shows "digit_char d \<noteq> CHR ''_''" and "digit_char d \<noteq> CHR ''.''"
proof -
  show "digit_char d \<noteq> CHR ''_''"
  proof
    assume "digit_char d = CHR ''_''"
    then have "(of_char (digit_char d) :: nat) = 95" by simp
    with of_char_digit_char [OF d] d show False by simp
  qed
  show "digit_char d \<noteq> CHR ''.''"
  proof
    assume "digit_char d = CHR ''.''"
    then have "(of_char (digit_char d) :: nat) = 46" by simp
    with of_char_digit_char [OF d] d show False by simp
  qed
qed

lemma string_of_nat_nonempty: "string_of_nat n \<noteq> []"
  by (subst string_of_nat.simps) simp

lemma string_of_nat_chars:
  "c \<in> set (string_of_nat n) \<Longrightarrow> c \<noteq> CHR ''_'' \<and> c \<noteq> CHR ''.''"
proof (induction n rule: string_of_nat.induct)
  case (1 n)
  show ?case
  proof (cases "n < 10")
    case True
    then have "string_of_nat n = [digit_char n]"
      by (subst string_of_nat.simps) simp
    with "1.prems" have "c = digit_char n" by simp
    with digit_char_not_sep [OF True] show ?thesis by simp
  next
    case False
    then have "string_of_nat n = string_of_nat (n div 10) @ [digit_char (n mod 10)]"
      by (subst string_of_nat.simps) simp
    with "1.prems" consider "c \<in> set (string_of_nat (n div 10))" | "c = digit_char (n mod 10)"
      by auto
    then show ?thesis
    proof cases
      case 1
      then show ?thesis by (rule "1.IH" [OF False])
    next
      case 2
      have "n mod 10 < 10" by simp
      from digit_char_not_sep [OF this] 2 show ?thesis by simp
    qed
  qed
qed

lemma string_of_nat_inj: "string_of_nat n = string_of_nat m \<Longrightarrow> n = m"
proof (induction n arbitrary: m rule: string_of_nat.induct)
  case (1 n)
  show ?case
  proof (cases "n < 10")
    case n: True
    show ?thesis
    proof (cases "m < 10")
      case True
      with n "1.prems" have "digit_char n = digit_char m"
        by (simp add: string_of_nat.simps [of n] string_of_nat.simps [of m])
      with n True show ?thesis by (rule digit_char_inj)
    next
      case False
      with n "1.prems" have "[digit_char n] = string_of_nat (m div 10) @ [digit_char (m mod 10)]"
        by (simp add: string_of_nat.simps [of n] string_of_nat.simps [of m])
      then have "string_of_nat (m div 10) = []" by simp
      with string_of_nat_nonempty show ?thesis by blast
    qed
  next
    case n: False
    show ?thesis
    proof (cases "m < 10")
      case True
      with n "1.prems" have "string_of_nat (n div 10) @ [digit_char (n mod 10)] = [digit_char m]"
        by (simp add: string_of_nat.simps [of n] string_of_nat.simps [of m])
      then have "string_of_nat (n div 10) = []" by simp
      with string_of_nat_nonempty show ?thesis by blast
    next
      case False
      with n "1.prems" have
        "string_of_nat (n div 10) @ [digit_char (n mod 10)]
           = string_of_nat (m div 10) @ [digit_char (m mod 10)]"
        by (simp add: string_of_nat.simps [of n] string_of_nat.simps [of m])
      then have hi: "string_of_nat (n div 10) = string_of_nat (m div 10)"
        and lo: "digit_char (n mod 10) = digit_char (m mod 10)" by simp_all
      from "1.IH" [OF n hi] have "n div 10 = m div 10" .
      moreover from lo have "n mod 10 = m mod 10"
        by (intro digit_char_inj) simp_all
      ultimately have "n div 10 * 10 + n mod 10 = m div 10 * 10 + m mod 10" by simp
      then show ?thesis by simp
    qed
  qed
qed

lemma js_String_nat: "js_String (int n) = string_of_nat n"
  by (simp add: js_String_def)

lemma sep_split_unique:
  assumes "a @ CHR ''_'' # b = a' @ CHR ''_'' # b'"
    and "CHR ''_'' \<notin> set a" and "CHR ''_'' \<notin> set a'"
  shows "a = a' \<and> b = b'"
proof -
  have tw: "CHR ''_'' \<notin> set xs \<Longrightarrow> takeWhile (\<lambda>c. c \<noteq> CHR ''_'') (xs @ CHR ''_'' # ys) = xs"
    for xs ys :: string
    by (induction xs) auto
  from tw [OF assms(2), of b] tw [OF assms(3), of b'] have "a = a'" using assms(1) by simp
  with assms(1) show ?thesis by simp
qed

lemma chunk_id_inj:
  assumes "c_id (chunk_at this W H col row) = c_id (chunk_at this W H col' row')"
  shows "col = col' \<and> row = row'"
proof -
  from assms have
    "string_of_nat col @ CHR ''_'' # string_of_nat row
       = string_of_nat col' @ CHR ''_'' # string_of_nat row'"
    by (simp add: chunk_at_def js_String_nat)
  moreover have "CHR ''_'' \<notin> set (string_of_nat col)" "CHR ''_'' \<notin> set (string_of_nat col')"
    using string_of_nat_chars by blast+
  ultimately have "string_of_nat col = string_of_nat col' \<and> string_of_nat row = string_of_nat row'"
    by (rule sep_split_unique)
  then show ?thesis by (simp add: string_of_nat_inj)
qed

lemma chunk_filename_id:
  "c_filename (chunk_at this W H col row)
     = c_id (chunk_at this W H col row) @ ''.'' @ format_name (ic_format this)"
  by (simp add: chunk_at_def)

lemma chunk_id_no_dot: "CHR ''.'' \<notin> set (c_id (chunk_at this W H col row))"
proof -
  have "CHR ''.'' \<notin> set (string_of_nat col)" "CHR ''.'' \<notin> set (string_of_nat row)"
    using string_of_nat_chars by blast+
  then show ?thesis by (simp add: chunk_at_def js_String_nat)
qed

section \<open>When the chunker returns\<close>

lemma string_of_nat_no_slash: "CHR ''/'' \<notin> set (string_of_nat n)"
proof (induction n rule: string_of_nat.induct)
  case (1 n)
  have digit: "digit_char d \<noteq> CHR ''/''" if "d < 10" for d
  proof
    assume "digit_char d = CHR ''/''"
    then have "(of_char (digit_char d) :: nat) = 47" by simp
    with of_char_digit_char [OF that] show False by simp
  qed
  show ?case
  proof (cases "n < 10")
    case True
    then have "string_of_nat n = [digit_char n]"
      by (subst string_of_nat.simps) simp
    with digit [OF True] show ?thesis by simp
  next
    case False
    then have "string_of_nat n = string_of_nat (n div 10) @ [digit_char (n mod 10)]"
      by (subst string_of_nat.simps) simp
    moreover have "digit_char (n mod 10) \<noteq> CHR ''/''" by (rule digit) simp
    ultimately show ?thesis using "1.IH" [OF False] by simp
  qed
qed

lemma chunk_filename_plain: "plain_name (c_filename (chunk_at this W H col row))"
proof -
  let ?f = "string_of_nat col @ CHR ''_'' # string_of_nat row @ CHR ''.'' # format_name (ic_format this)"
  have f: "c_filename (chunk_at this W H col row) = ?f"
    by (simp add: chunk_at_def js_String_nat)
  have "CHR ''/'' \<notin> set (format_name (ic_format this))"
    by (cases "ic_format this") simp_all
  then have a: "CHR ''/'' \<notin> set ?f"
    by (simp add: string_of_nat_no_slash)
  have us: "CHR ''_'' \<in> set ?f" by simp
  have b: "?f \<noteq> []" "?f \<noteq> ''.''" "?f \<noteq> ''..''"
  proof -
    show "?f \<noteq> []" by simp
    show "?f \<noteq> ''.''"
    proof
      assume "?f = ''.''"
      with us have "CHR ''_'' \<in> set ''.''" by simp
      then show False by simp
    qed
    show "?f \<noteq> ''..''"
    proof
      assume "?f = ''..''"
      with us have "CHR ''_'' \<in> set ''..''" by simp
      then show False by simp
    qed
  qed
  from a b show ?thesis unfolding f plain_name_def by simp
qed

lemma extract_all_append:
  "extract_all env this img W H (xs @ ys) w
     = (case extract_all env this img W H xs w of
          None \<Rightarrow> None | Some w' \<Rightarrow> extract_all env this img W H ys w')"
  by (induction xs arbitrary: w) (auto split: prod.splits sum.splits)

lemma cols_run_extract_all:
  assumes "extract_all env this img W H (map (\<lambda>col. (col, row)) cols) (world s) = Some w'"
  shows "cols_run env this img W H row cols cs s
           = (Inr (cs @ map (\<lambda>col. chunk_at this W H col row) cols),
              \<lparr>world = w', trace = trace s @ map (\<lambda>col. extract_event this img W H col row) cols\<rparr>)"
  using assms
proof (induction cols arbitrary: cs s)
  case Nil
  then show ?case by simp
next
  case (Cons col cols)
  let ?c = "chunk_at this W H col row"
  from Cons.prems obtain u w1 where
    ex: "sharp_extract_toFile env img (c_pixelX ?c) (c_pixelY ?c) (c_width ?c) (c_height ?c)
           (path_join (ic_outputDir this) (c_filename ?c)) (world s) = (Inr u, w1)"
    and rest: "extract_all env this img W H (map (\<lambda>col. (col, row)) cols) w1 = Some w'"
    by (auto split: prod.splits sum.splits)
  let ?s1 = "\<lparr>world = w1, trace = trace s @ [extract_event this img W H col row]\<rparr>"
  from ex have cc: "createChunk env this img col row W H s = (Inr ?c, ?s1)"
    by (simp add: createChunk_def request_def Let_def chunk_at_def extract_event_def)
  from rest have "extract_all env this img W H (map (\<lambda>col. (col, row)) cols) (world ?s1) = Some w'"
    by simp
  from Cons.IH [OF this, of "cs @ [?c]"] cc show ?case by simp
qed

lemma rows_run_extract_all:
  assumes "extract_all env this img W H
             (concat (map (\<lambda>row. map (\<lambda>col. (col, row)) [0..<nx]) rows)) (world s) = Some w'"
  shows "rows_run env this img W H nx rows cs s
           = (Inr (cs @ concat (map (\<lambda>row. map (\<lambda>col. chunk_at this W H col row) [0..<nx]) rows)),
              \<lparr>world = w',
               trace = trace s @ concat (map (\<lambda>row. map (\<lambda>col. extract_event this img W H col row)
                                                     [0..<nx]) rows)\<rparr>)"
  using assms
proof (induction rows arbitrary: cs s)
  case Nil
  then show ?case by simp
next
  case (Cons row rows)
  from Cons.prems obtain w1 where
    one: "extract_all env this img W H (map (\<lambda>col. (col, row)) [0..<nx]) (world s) = Some w1"
    and rest: "extract_all env this img W H
                 (concat (map (\<lambda>row. map (\<lambda>col. (col, row)) [0..<nx]) rows)) w1 = Some w'"
    by (auto simp: extract_all_append split: option.splits)
  note c = cols_run_extract_all [OF one, of cs]
  let ?s1 = "\<lparr>world = w1,
              trace = trace s @ map (\<lambda>col. extract_event this img W H col row) [0..<nx]\<rparr>"
  from rest have "extract_all env this img W H
                 (concat (map (\<lambda>row. map (\<lambda>col. (col, row)) [0..<nx]) rows)) (world ?s1) = Some w'"
    by simp
  from Cons.IH [OF this, of "cs @ map (\<lambda>col. chunk_at this W H col row) [0..<nx]"] c
  show ?case by simp
qed

lemma chunkImage_produces:
  assumes S: "ic_chunkSize this \<noteq> 0" and W: "W \<noteq> 0" and H: "H \<noteq> 0"
    and mk: "fs_mkdir env (ic_outputDir this) (world s) = (Inr u, w1)"
    and rd: "sharp_metadata env inputPath w1 = (Inr (Some W, Some H), w2)"
    and ex: "extract_all env this inputPath W H
               (row_major (ceil_div W (ic_chunkSize this)) (ceil_div H (ic_chunkSize this))) w2
             = Some w3"
    and wr: "fs_writeFile env (path_join (ic_outputDir this) ''metadata.json'')
               (JSON_stringify (grid_manifest this W H)) w3 = (Inr u', w4)"
  shows "chunkImage env this inputPath s
           = Some (Inr (grid_manifest this W H),
               \<lparr>world = w4,
                trace = trace s @ [Mkdir (ic_outputDir this), ReadMetadata inputPath]
                  @ map (\<lambda>(col, row). extract_event this inputPath W H col row)
                      (row_major (ceil_div W (ic_chunkSize this)) (ceil_div H (ic_chunkSize this)))
                  @ [WriteFile (path_join (ic_outputDir this) ''metadata.json'')
                       (JSON_stringify (grid_manifest this W H))]\<rparr>)"
proof -
  let ?S = "ic_chunkSize this" and ?dir = "ic_outputDir this"
  define s2 where "s2 = \<lparr>world = w2, trace = trace s @ [Mkdir ?dir, ReadMetadata inputPath]\<rparr>"
  define cx where "cx = Math_ceil (js_div (Fin (real_of_int W)) (Fin (real_of_int ?S)))"
  define cy where "cy = Math_ceil (js_div (Fin (real_of_int H)) (Fin (real_of_int ?S)))"
  define m where "m = grid_manifest this W H"
  have rows: "chunkImage_rows env this inputPath W H cx cy 0 [] s2
          = Some (rows_run env this inputPath W H (ceil_div W ?S) [0..<ceil_div H ?S] [] s2)"
    unfolding cx_def cy_def Math_ceil_div_Fin [OF S] chunkImage_rows_finite
    by (simp add: ceil_div_def)
  from ex have "extract_all env this inputPath W H
             (concat (map (\<lambda>row. map (\<lambda>col. (col, row)) [0..<ceil_div W ?S]) [0..<ceil_div H ?S]))
             (world s2) = Some w3"
    by (simp add: row_major_def s2_def)
  note rr = rows_run_extract_all [OF this, of "[]"]
  define s3 where "s3 = \<lparr>world = w3,
      trace = trace s2 @ map (\<lambda>(col, row). extract_event this inputPath W H col row)
                (row_major (ceil_div W ?S) (ceil_div H ?S))\<rparr>"
  have rows': "chunkImage_rows env this inputPath W H cx cy 0 [] s2 = Some (Inr (grid this W H), s3)"
    unfolding rows rr by (simp add: concat_row_major grid_def s3_def)
  have m_eq: "\<lparr>version = 1, totalWidth = W, totalHeight = H,
               chunkWidth = ?S, chunkHeight = ?S, chunksX = cx, chunksY = cy,
               chunks = grid this W H, format = ic_format this\<rparr> = m"
    by (simp add: m_def grid_manifest_def cx_def cy_def)
  have save: "saveMetadata env this m s3
                = (Inr u', \<lparr>world = w4,
                     trace = trace s3 @ [WriteFile (path_join ?dir ''metadata.json'')
                                           (JSON_stringify m)]\<rparr>)"
    using wr by (simp add: saveMetadata_def request_def m_def s3_def)
  have "chunkImage env this inputPath s
          = Some (Inr m, \<lparr>world = w4,
                     trace = trace s3 @ [WriteFile (path_join ?dir ''metadata.json'')
                                           (JSON_stringify m)]\<rparr>)"
    unfolding chunkImage_def
    by (simp add: request_def mk rd W H Let_def cx_def [symmetric] cy_def [symmetric]
          s2_def [symmetric] rows' m_eq save
          del: js_div.simps Math_ceil.simps)
  then show ?thesis by (simp add: s3_def s2_def m_def)
qed

section \<open>The grid partition\<close>

lemma demo_chunkImage:
  "chunkImage (sim_io (Some 3) (Some 2) [] True) demo_chunker ''in.png'' start
     = Some (Inr demo_manifest, demo_state)"
  by code_simp

lemma demo_grid_chunkImage:
  "chunkImage (sim_io (Some 3) (Some 3) [] True) demo_chunker ''in.png'' start
     = Some (Inr demo_grid_manifest, \<lparr>world = (), trace = demo_grid_trace\<rparr>)"
  by code_simp

lemma demo_paths:
  "path_join ''out'' ''chunks_temp'' = ''out/chunks_temp''"
  "path_join ''out'' ''chunks'' = ''out/chunks''"
  "path_join ''out'' ''metadata.json'' = ''out/metadata.json''"
  "path_join ''out/chunks_temp'' ''metadata.json'' = ''out/chunks_temp/metadata.json''"
  "path_join ''out/chunks'' ''metadata.json'' = ''out/chunks/metadata.json''"
  "path_join ''out'' ''0_0.png'' = ''out/0_0.png''"
  "path_join ''out'' ''1_0.png'' = ''out/1_0.png''"
  "path_join ''out'' ''0_1.png'' = ''out/0_1.png''"
  "path_join ''out'' ''1_1.png'' = ''out/1_1.png''"
  "path_join ''out/chunks_temp'' ''0_0.png'' = ''out/chunks_temp/0_0.png''"
  "path_join ''out/chunks_temp'' ''1_0.png'' = ''out/chunks_temp/1_0.png''"
  "path_join ''out/chunks_temp'' ''0_1.png'' = ''out/chunks_temp/0_1.png''"
  "path_join ''out/chunks_temp'' ''1_1.png'' = ''out/chunks_temp/1_1.png''"
  by code_simp+

lemma demo_chunker_fields:
  "ic_chunkSize demo_chunker = 2" "ic_outputDir demo_chunker = ''out''"
  "ic_format demo_chunker = png"
  by (simp_all add: demo_chunker_def ImageChunker_new_def)

lemma demo_ceil_div: "ceil_div 3 2 = 2" "ceil_div 2 2 = 1"
  by (simp_all add: ceil_div_def)

lemma extract_all_sim_io:
  "extract_all (sim_io w h missing rm_ok) this img W H cells u = Some ()"
  by (induction cells) (auto simp: sim_io_def)

lemma demo_grid_io:
  "fs_mkdir (sim_io (Some 3) (Some 3) [] True) (ic_outputDir demo_chunker) (world start)
     = (Inr (), ())"
  "sharp_metadata (sim_io (Some 3) (Some 3) [] True) ''in.png'' () = (Inr (Some 3, Some 3), ())"
  "extract_all (sim_io (Some 3) (Some 3) [] True) demo_chunker ''in.png'' 3 3
     (row_major (ceil_div 3 (ic_chunkSize demo_chunker)) (ceil_div 3 (ic_chunkSize demo_chunker))) ()
     = Some ()"
  "fs_writeFile (sim_io (Some 3) (Some 3) [] True)
     (path_join (ic_outputDir demo_chunker) ''metadata.json'')
     (JSON_stringify (grid_manifest demo_chunker 3 3)) () = (Inr (), ())"
  by (simp_all add: extract_all_sim_io) (simp_all add: sim_io_def)

lemma lt_ceil_div_iff:
  assumes "0 < S"
  shows "col < ceil_div W S \<longleftrightarrow> int col * S < W"
proof -
  have "col < ceil_div W S \<longleftrightarrow> int col < \<lceil>real_of_int W / real_of_int S\<rceil>"
    by (simp add: ceil_div_def zless_nat_eq_int_zless)
  also have "\<dots> \<longleftrightarrow> real_of_int (int col) < real_of_int W / real_of_int S"
    by (rule less_ceiling_iff)
  also have "\<dots> \<longleftrightarrow> real_of_int (int col) * real_of_int S < real_of_int W"
    using assms by (simp add: pos_less_divide_eq)
  also have "\<dots> \<longleftrightarrow> real_of_int (int col * S) < real_of_int W"
    by simp
  also have "\<dots> \<longleftrightarrow> int col * S < W"
    by (rule of_int_less_iff)
  finally show ?thesis .
qed

lemma ceil_div_pos: "0 < S \<Longrightarrow> 0 < W \<Longrightarrow> 0 < ceil_div W S"
  by (simp add: lt_ceil_div_iff)

lemma ceil_div_upper: "0 < S \<Longrightarrow> W \<le> int (ceil_div W S) * S"
  using lt_ceil_div_iff [of S "ceil_div W S" W] by simp

lemma ceil_div_one:
  assumes "0 < W" and "W \<le> S"
  shows "ceil_div W S = 1"
proof -
  from assms have S: "0 < S" by simp
  have "\<not> 1 < ceil_div W S"
    using lt_ceil_div_iff [OF S, of 1 W] assms by simp
  moreover have "0 < ceil_div W S" using S assms(1) by (rule ceil_div_pos)
  ultimately show ?thesis by simp
qed

lemma chunks_Fin:
  "S \<noteq> 0 \<Longrightarrow> 0 < W \<Longrightarrow> 0 < S \<Longrightarrow>
   Math_ceil (js_div (Fin (real_of_int W)) (Fin (real_of_int S))) = Fin (real (ceil_div W S))"
proof -
  assume S: "S \<noteq> 0" and W: "0 < W" and S': "0 < S"
  have "0 \<le> real_of_int W / real_of_int S"
    using W S' by simp
  then have "0 \<le> \<lceil>real_of_int W / real_of_int S\<rceil>"
    by (metis ceiling_mono ceiling_zero)
  then show ?thesis
    unfolding Math_ceil_div_Fin [OF S] by (simp add: ceil_div_def)
qed


text \<open>
  C1. Let the image library report a positive width \<open>W\<close> and height \<open>H\<close>, let the
  tile size \<open>S\<close> be positive, and let none of the chunker's requests throw (creating
  the directory, reading the metadata, extracting the tiles of the grid in row-major
  order, writing the manifest). Then the chunker returns a manifest with
  \<open>ceil(W/S) * ceil(H/S)\<close> regions; the region of cell (col, row), at position
  \<open>row * ceil(W/S) + col\<close>, has \<open>pixelX = col * S\<close>, \<open>pixelY = row * S\<close>,
  \<open>width = min(S, W - pixelX)\<close> and \<open>height = min(S, H - pixelY)\<close>; an image no larger
  than one tile gives exactly one region, the full image.
\<close>

theorem partition_regions:
  assumes W: "0 < W" and H: "0 < H" and S: "0 < ic_chunkSize this"
    and mk: "fs_mkdir env (ic_outputDir this) (world s) = (Inr u, w1)"
    and rd: "sharp_metadata env inputPath w1 = (Inr (Some W, Some H), w2)"
    and ex: "extract_all env this inputPath W H
               (row_major (ceil_div W (ic_chunkSize this)) (ceil_div H (ic_chunkSize this))) w2
             = Some w3"
    and wr: "fs_writeFile env (path_join (ic_outputDir this) ''metadata.json'')
               (JSON_stringify (grid_manifest this W H)) w3 = (Inr u', w4)"
  shows
    "\<exists>m s'. chunkImage env this inputPath s = Some (Inr m, s') \<and>
       totalWidth m = W \<and> totalHeight m = H \<and>
       chunksX m = Fin (real (ceil_div W (ic_chunkSize this))) \<and>
       chunksY m = Fin (real (ceil_div H (ic_chunkSize this))) \<and>
       length (chunks m) = ceil_div W (ic_chunkSize this) * ceil_div H (ic_chunkSize this) \<and>
       (\<forall>row < ceil_div H (ic_chunkSize this).
        \<forall>col < ceil_div W (ic_chunkSize this).
          (let c = chunks m ! (row * ceil_div W (ic_chunkSize this) + col) in
           c_x c = int col \<and> c_y c = int row \<and>
           c_pixelX c = int col * ic_chunkSize this \<and>
           c_pixelY c = int row * ic_chunkSize this \<and>
           c_width c = min (ic_chunkSize this) (W - c_pixelX c) \<and>
           c_height c = min (ic_chunkSize this) (H - c_pixelY c))) \<and>
       (W \<le> ic_chunkSize this \<and> H \<le> ic_chunkSize this \<longrightarrow>
          (\<exists>c. chunks m = [c] \<and> c_pixelX c = 0 \<and> c_pixelY c = 0 \<and>
               c_width c = W \<and> c_height c = H))"
proof -
  let ?S = "ic_chunkSize this"
  let ?nx = "ceil_div W ?S" and ?ny = "ceil_div H ?S"
  define m where "m = grid_manifest this W H"
  from W H S have nz: "?S \<noteq> 0" "W \<noteq> 0" "H \<noteq> 0" by simp_all
  from chunkImage_produces [OF nz mk rd ex wr] obtain s' where
    run: "chunkImage env this inputPath s = Some (Inr m, s')"
    by (simp add: m_def)
  have g: "chunks m = grid this W H" and dims: "totalWidth m = W" "totalHeight m = H"
    by (simp_all add: m_def grid_manifest_def)
  have cx: "chunksX m = Fin (real ?nx)" and cy: "chunksY m = Fin (real ?ny)"
    using chunks_Fin [OF nz(1) W S] chunks_Fin [OF nz(1) H S]
    by (simp_all add: m_def grid_manifest_def del: js_div.simps Math_ceil.simps)
  have len: "length (chunks m) = ?nx * ?ny"
    by (simp add: g length_grid)
  have cell: "\<forall>row < ?ny. \<forall>col < ?nx.
        (let c = chunks m ! (row * ?nx + col) in
         c_x c = int col \<and> c_y c = int row \<and>
         c_pixelX c = int col * ?S \<and> c_pixelY c = int row * ?S \<and>
         c_width c = min ?S (W - c_pixelX c) \<and>
         c_height c = min ?S (H - c_pixelY c))"
    by (simp add: g nth_grid_cell(2) chunk_at_def)
  have one: "W \<le> ?S \<and> H \<le> ?S \<longrightarrow>
        (\<exists>c. chunks m = [c] \<and> c_pixelX c = 0 \<and> c_pixelY c = 0 \<and>
             c_width c = W \<and> c_height c = H)"
  proof
    assume le: "W \<le> ?S \<and> H \<le> ?S"
    then have "?nx = 1" "?ny = 1"
      using ceil_div_one [OF W] ceil_div_one [OF H] by simp_all
    then have "chunks m = [chunk_at this W H 0 0]"
      by (simp add: g grid_def row_major_def)
    with le show "\<exists>c. chunks m = [c] \<and> c_pixelX c = 0 \<and> c_pixelY c = 0 \<and>
             c_width c = W \<and> c_height c = H"
      by (simp add: chunk_at_def)
  qed
  show ?thesis
    apply (rule exI [of _ m])
    apply (rule exI [of _ s'])
    apply (intro conjI)
           apply (rule run)
          apply (rule dims(1))
         apply (rule dims(2))
        apply (rule cx)
       apply (rule cy)
      apply (rule len)
     apply (rule cell)
    apply (rule one)
    done
qed

theorem partition_regions_witness:
  "fs_mkdir (sim_io (Some 3) (Some 3) [] True) (ic_outputDir demo_chunker) (world start)
     = (Inr (), ()) \<and>
   sharp_metadata (sim_io (Some 3) (Some 3) [] True) ''in.png'' () = (Inr (Some 3, Some 3), ()) \<and>
   extract_all (sim_io (Some 3) (Some 3) [] True) demo_chunker ''in.png'' 3 3
     (row_major (ceil_div 3 (ic_chunkSize demo_chunker)) (ceil_div 3 (ic_chunkSize demo_chunker))) ()
     = Some () \<and>
   fs_writeFile (sim_io (Some 3) (Some 3) [] True)
     (path_join (ic_outputDir demo_chunker) ''metadata.json'')
     (JSON_stringify (grid_manifest demo_chunker 3 3)) () = (Inr (), ()) \<and>
   0 < ic_chunkSize demo_chunker \<and>
   (\<exists>m s'. chunkImage (sim_io (Some 3) (Some 3) [] True) demo_chunker ''in.png'' start
              = Some (Inr m, s') \<and>
      totalWidth m = 3 \<and> totalHeight m = 3 \<and> length (chunks m) = 2 * 2 \<and>
      c_x (chunks m ! 1) = 1 \<and> c_y (chunks m ! 1) = 0 \<and>
      c_x (chunks m ! 2) = 0 \<and> c_y (chunks m ! 2) = 1 \<and>
      c_pixelX (chunks m ! 3) = 2 \<and> c_pixelY (chunks m ! 3) = 2 \<and>
      c_width (chunks m ! 3) = 1 \<and> c_height (chunks m ! 3) = 1)"
proof -
  have S: "0 < ic_chunkSize demo_chunker" by (simp add: demo_chunker_fields)
  have pos: "(0::int) < 3" by simp
  from partition_regions [OF pos pos S demo_grid_io]
  obtain m s' where
    run: "chunkImage (sim_io (Some 3) (Some 3) [] True) demo_chunker ''in.png'' start
            = Some (Inr m, s')"
    and dims: "totalWidth m = 3" "totalHeight m = 3"
    and len: "length (chunks m) = ceil_div 3 (ic_chunkSize demo_chunker)
                                  * ceil_div 3 (ic_chunkSize demo_chunker)"
    and cell: "\<forall>row < ceil_div 3 (ic_chunkSize demo_chunker).
        \<forall>col < ceil_div 3 (ic_chunkSize demo_chunker).
          (let c = chunks m ! (row * ceil_div 3 (ic_chunkSize demo_chunker) + col) in
           c_x c = int col \<and> c_y c = int row \<and>
           c_pixelX c = int col * ic_chunkSize demo_chunker \<and>
           c_pixelY c = int row * ic_chunkSize demo_chunker \<and>
           c_width c = min (ic_chunkSize demo_chunker) (3 - c_pixelX c) \<and>
           c_height c = min (ic_chunkSize demo_chunker) (3 - c_pixelY c))"
    by (elim exE conjE) blast
  from len have len': "length (chunks m) = 2 * 2"
    by (simp add: demo_chunker_fields demo_ceil_div)
  from cell have cell': "\<forall>row < 2. \<forall>col < 2.
          (let c = chunks m ! (row * 2 + col) in
           c_x c = int col \<and> c_y c = int row \<and>
           c_pixelX c = int col * 2 \<and> c_pixelY c = int row * 2 \<and>
           c_width c = min 2 (3 - c_pixelX c) \<and> c_height c = min 2 (3 - c_pixelY c))"
    by (simp add: demo_chunker_fields demo_ceil_div)
  from cell' [rule_format, of 0 1] have c1: "c_x (chunks m ! 1) = 1" "c_y (chunks m ! 1) = 0"
    by (simp_all add: Let_def)
  from cell' [rule_format, of 1 0] have c2: "c_x (chunks m ! 2) = 0" "c_y (chunks m ! 2) = 1"
    by (simp_all add: Let_def)
  from cell' [rule_format, of 1 1] have c3:
    "c_pixelX (chunks m ! 3) = 2" "c_pixelY (chunks m ! 3) = 2"
    "c_width (chunks m ! 3) = 1" "c_height (chunks m ! 3) = 1"
    by (simp_all add: Let_def)
  from run dims len' c1 c2 c3 have
    "\<exists>m s'. chunkImage (sim_io (Some 3) (Some 3) [] True) demo_chunker ''in.png'' start
              = Some (Inr m, s') \<and>
      totalWidth m = 3 \<and> totalHeight m = 3 \<and> length (chunks m) = 2 * 2 \<and>
      c_x (chunks m ! 1) = 1 \<and> c_y (chunks m ! 1) = 0 \<and>
      c_x (chunks m ! 2) = 0 \<and> c_y (chunks m ! 2) = 1 \<and>
      c_pixelX (chunks m ! 3) = 2 \<and> c_pixelY (chunks m ! 3) = 2 \<and>
      c_width (chunks m ! 3) = 1 \<and> c_height (chunks m ! 3) = 1"
    by blast
  with demo_grid_io S show ?thesis by simp
qed

lemma tile_writes_append: "tile_writes (xs @ ys) = tile_writes xs @ tile_writes ys"
  by (induction xs rule: tile_writes.induct) simp_all

lemma tile_writes_extract_events:
  "tile_writes (map (\<lambda>(col, row). extract_event this img W H col row) cells)
     = map (\<lambda>(col, row). path_join (ic_outputDir this) (c_filename (chunk_at this W H col row)))
         cells"
  by (induction cells) (auto simp: extract_event_def)

lemma chunkImage_tile_writes:
  assumes run: "chunkImage env this inputPath s = Some (Inr m, s')"
  shows "tile_writes (trace s')
           = tile_writes (trace s)
             @ map (\<lambda>c. path_join (ic_outputDir this) (c_filename c)) (chunks m)"
proof -
  let ?W = "totalWidth m" and ?H = "totalHeight m"
  let ?rm = "row_major (ceil_div ?W (ic_chunkSize this)) (ceil_div ?H (ic_chunkSize this))"
  note facts = chunkImage_Inr [OF run]
  from facts have g: "chunks m = map (\<lambda>(col, row). chunk_at this ?W ?H col row) ?rm"
    by (simp add: grid_def)
  from facts have
    "trace s' = trace s @ [Mkdir (ic_outputDir this), ReadMetadata inputPath]
       @ map (\<lambda>(col, row). extract_event this inputPath ?W ?H col row) ?rm
       @ [WriteFile (path_join (ic_outputDir this) ''metadata.json'') (JSON_stringify m)]"
    by blast
  then have "tile_writes (trace s')
      = tile_writes (trace s)
        @ map (\<lambda>(col, row). path_join (ic_outputDir this) (c_filename (chunk_at this ?W ?H col row)))
            ?rm"
    by (simp add: tile_writes_append tile_writes_extract_events)
  also have "map (\<lambda>(col, row). path_join (ic_outputDir this) (c_filename (chunk_at this ?W ?H col row)))
            ?rm = map (\<lambda>c. path_join (ic_outputDir this) (c_filename c)) (chunks m)"
    unfolding g by (simp add: split_def)
  finally show ?thesis .
qed

text \<open>
  C10. In every grid the chunker returns, two regions at different positions have
  different identifiers and different filenames; the tile files the run asked the image
  library to write are exactly the files of the manifest's regions, one request each, in
  the manifest's order, and they are pairwise different: no two tiles of the run are
  written to the same file.
\<close>

theorem chunk_names_distinct:
  assumes run: "chunkImage env this inputPath s = Some (Inr m, s')"
  shows "distinct (map c_id (chunks m)) \<and>
         distinct (map c_filename (chunks m)) \<and>
         tile_writes (trace s')
           = tile_writes (trace s)
             @ map (\<lambda>c. path_join (ic_outputDir this) (c_filename c)) (chunks m) \<and>
         distinct (map (\<lambda>c. path_join (ic_outputDir this) (c_filename c)) (chunks m))"
proof -
  let ?W = "totalWidth m" and ?H = "totalHeight m"
  let ?rm = "row_major (ceil_div ?W (ic_chunkSize this)) (ceil_div ?H (ic_chunkSize this))"
  note facts = chunkImage_Inr [OF run]
  from facts have g: "chunks m = map (\<lambda>(col, row). chunk_at this ?W ?H col row) ?rm"
    by (simp add: grid_def)
  have inj: "inj_on (\<lambda>p. c_id (case p of (col, row) \<Rightarrow> chunk_at this ?W ?H col row)) (set ?rm)"
    by (auto simp: inj_on_def dest: chunk_id_inj)
  have ids: "distinct (map c_id (chunks m))"
    unfolding g map_map comp_def using distinct_row_major inj by (simp add: distinct_map)
  have fn: "map c_filename (chunks m)
              = map (\<lambda>i. i @ ''.'' @ format_name (ic_format this)) (map c_id (chunks m))"
    unfolding g by (simp add: chunk_at_def split_def)
  have names: "distinct (map c_filename (chunks m))"
    unfolding fn using ids by (simp add: distinct_map inj_on_def)
  have plain: "plain_name n" if "n \<in> set (map c_filename (chunks m))" for n
    using that unfolding g by (auto simp: chunk_filename_plain)
  have "inj_on (path_join (ic_outputDir this)) (set (map c_filename (chunks m)))"
    by (rule inj_onI) (blast intro: path_join_plain_inj plain)
  with names have "distinct (map (path_join (ic_outputDir this)) (map c_filename (chunks m)))"
    by (simp only: distinct_map)
  then have paths: "distinct (map (\<lambda>c. path_join (ic_outputDir this) (c_filename c)) (chunks m))"
    by (simp add: comp_def)
  note writes = chunkImage_tile_writes [OF run]
  from ids names writes paths show ?thesis by (simp only: simp_thms)
qed

theorem chunk_names_distinct_witness:
  "chunkImage (sim_io (Some 3) (Some 3) [] True) demo_chunker ''in.png'' start
     = Some (Inr demo_grid_manifest, \<lparr>world = (), trace = demo_grid_trace\<rparr>) \<and>
   map c_id (chunks demo_grid_manifest) = [''0_0'', ''1_0'', ''0_1'', ''1_1''] \<and>
   distinct (map c_id (chunks demo_grid_manifest)) \<and>
   distinct (map c_filename (chunks demo_grid_manifest)) \<and>
   tile_writes demo_grid_trace = [''out/0_0.png'', ''out/1_0.png'', ''out/0_1.png'', ''out/1_1.png''] \<and>
   distinct (tile_writes demo_grid_trace)"
proof -
  note d = chunk_names_distinct [OF demo_grid_chunkImage]
  have paths: "map (\<lambda>c. path_join (ic_outputDir demo_chunker) (c_filename c))
                 (chunks demo_grid_manifest)
               = [''out/0_0.png'', ''out/1_0.png'', ''out/0_1.png'', ''out/1_1.png'']"
    by (simp add: demo_grid_manifest_def demo_chunker_fields demo_paths)
  from d have "tile_writes demo_grid_trace
      = [''out/0_0.png'', ''out/1_0.png'', ''out/0_1.png'', ''out/1_1.png'']"
    and "distinct (tile_writes demo_grid_trace)"
    unfolding paths by (simp_all add: start_def)
  moreover from d have "distinct (map c_id (chunks demo_grid_manifest))"
    "distinct (map c_filename (chunks demo_grid_manifest))"
    by blast+
  moreover have "map c_id (chunks demo_grid_manifest) = [''0_0'', ''1_0'', ''0_1'', ''1_1'']"
    by (simp add: demo_grid_manifest_def)
  ultimately show ?thesis using demo_grid_chunkImage by simp
qed

section \<open>The regions tile the image\<close>

lemma div_eq_iff_int:
  assumes "0 < (S::int)"
  shows "px div S = q \<longleftrightarrow> q * S \<le> px \<and> px < q * S + S"
proof
  assume "px div S = q"
  moreover have "px = px div S * S + px mod S" by simp
  moreover have "0 \<le> px mod S" "px mod S < S" using assms by simp_all
  ultimately show "q * S \<le> px \<and> px < q * S + S" by auto
next
  assume b: "q * S \<le> px \<and> px < q * S + S"
  have "px = S * q + (px - q * S)" by (simp add: mult.commute)
  moreover from b have "0 \<le> px - q * S" "px - q * S < S" by simp_all
  ultimately show "px div S = q" by (rule int_div_pos_eq)
qed

lemma in_rect_chunk_at:
  assumes S: "0 < ic_chunkSize this"
  shows "in_rect (chunk_at this W H col row) px py \<longleftrightarrow>
           px div ic_chunkSize this = int col \<and> px < W \<and>
           py div ic_chunkSize this = int row \<and> py < H"
  unfolding div_eq_iff_int [OF S]
  by (auto simp: in_rect_def chunk_at_def min_def)

lemma tiling_cover:
  assumes S: "0 < ic_chunkSize this"
  shows "(\<exists>i < length (grid this W H). in_rect (grid this W H ! i) px py)
           \<longleftrightarrow> 0 \<le> px \<and> px < W \<and> 0 \<le> py \<and> py < H"
proof
  let ?S = "ic_chunkSize this"
  let ?nx = "ceil_div W ?S" and ?ny = "ceil_div H ?S"
  assume "\<exists>i < length (grid this W H). in_rect (grid this W H ! i) px py"
  then obtain i where i: "i < ?nx * ?ny" and r: "in_rect (grid this W H ! i) px py"
    by (auto simp: length_grid)
  from r have "in_rect (chunk_at this W H (i mod ?nx) (i div ?nx)) px py"
    by (simp add: nth_grid [OF i])
  then have d: "px div ?S = int (i mod ?nx)" "px < W" "py div ?S = int (i div ?nx)" "py < H"
    by (simp_all add: in_rect_chunk_at [OF S])
  from d(1) d(3) have "0 \<le> px div ?S" "0 \<le> py div ?S" by simp_all
  with S have "0 \<le> px" "0 \<le> py"
    by (simp_all add: pos_imp_zdiv_nonneg_iff)
  with d show "0 \<le> px \<and> px < W \<and> 0 \<le> py \<and> py < H" by simp
next
  let ?S = "ic_chunkSize this"
  let ?nx = "ceil_div W ?S" and ?ny = "ceil_div H ?S"
  assume b: "0 \<le> px \<and> px < W \<and> 0 \<le> py \<and> py < H"
  define col where "col = nat (px div ?S)"
  define row where "row = nat (py div ?S)"
  from b S have nn: "0 \<le> px div ?S" "0 \<le> py div ?S"
    by (simp_all add: pos_imp_zdiv_nonneg_iff)
  then have c: "px div ?S = int col" "py div ?S = int row"
    by (simp_all add: col_def row_def)
  have "int col * ?S \<le> px" "int row * ?S \<le> py"
    using c div_eq_iff_int [OF S, of px "int col"] div_eq_iff_int [OF S, of py "int row"]
    by simp_all
  with b have "int col * ?S < W" "int row * ?S < H" by simp_all
  then have lt: "col < ?nx" "row < ?ny"
    by (simp_all add: lt_ceil_div_iff [OF S])
  have "in_rect (chunk_at this W H col row) px py"
    using b c by (simp add: in_rect_chunk_at [OF S])
  with nth_grid_cell [OF lt] show "\<exists>i < length (grid this W H). in_rect (grid this W H ! i) px py"
    by (auto simp: length_grid)
qed

lemma tiling_disjoint:
  assumes S: "0 < ic_chunkSize this"
    and i: "i < length (grid this W H)" and j: "j < length (grid this W H)"
    and ri: "in_rect (grid this W H ! i) px py" and rj: "in_rect (grid this W H ! j) px py"
  shows "i = j"
proof -
  let ?nx = "ceil_div W (ic_chunkSize this)"
  from i j have i': "i < ?nx * ceil_div H (ic_chunkSize this)"
    and j': "j < ?nx * ceil_div H (ic_chunkSize this)"
    by (simp_all add: length_grid)
  from ri rj have "int (i mod ?nx) = int (j mod ?nx)" "int (i div ?nx) = int (j div ?nx)"
    by (simp_all add: nth_grid [OF i'] nth_grid [OF j'] in_rect_chunk_at [OF S])
  then have "i div ?nx * ?nx + i mod ?nx = j div ?nx * ?nx + j mod ?nx" by simp
  then show ?thesis by (simp only: div_mult_mod_eq)
qed

lemma sum_full_widths:
  "0 < S \<Longrightarrow> int k * S \<le> W \<Longrightarrow> (\<Sum>col\<leftarrow>[0..<k]. min S (W - int col * S)) = int k * S"
proof (induction k)
  case 0
  then show ?case by simp
next
  case (Suc k)
  from Suc.prems have le: "int k * S + S \<le> W" by (simp add: algebra_simps)
  with Suc.prems(1) have "int k * S \<le> W" by simp
  with Suc.IH Suc.prems(1) le show ?case by (simp add: algebra_simps min_def)
qed

lemma sum_widths:
  assumes S: "0 < S" and W: "0 < W"
  shows "(\<Sum>col\<leftarrow>[0..<ceil_div W S]. min S (W - int col * S)) = W"
proof -
  from ceil_div_pos [OF S W] obtain k where k: "ceil_div W S = Suc k"
    by (cases "ceil_div W S") simp_all
  have "k < ceil_div W S" by (simp add: k)
  then have lt: "int k * S < W" by (simp add: lt_ceil_div_iff [OF S])
  have up: "W \<le> int k * S + S"
    using ceil_div_upper [OF S, of W] by (simp add: k algebra_simps)
  from lt have "(\<Sum>col\<leftarrow>[0..<k]. min S (W - int col * S)) = int k * S"
    by (intro sum_full_widths [OF S]) simp
  with up show ?thesis by (simp add: k min_def)
qed

lemma sum_row_major:
  "(\<Sum>(col, row)\<leftarrow>row_major nx ny. (w col :: int) * h row)
     = (\<Sum>col\<leftarrow>[0..<nx]. w col) * (\<Sum>row\<leftarrow>[0..<ny]. h row)"
proof (induction ny)
  case 0
  then show ?case by (simp add: row_major_def)
next
  case (Suc ny)
  have "(\<Sum>col\<leftarrow>[0..<nx]. w col * h ny) = (\<Sum>col\<leftarrow>[0..<nx]. w col) * h ny"
    by (rule sum_list_mult_const)
  with Suc show ?case
    by (simp add: row_major_Suc comp_def algebra_simps)
qed

lemma tiling_area:
  assumes S: "0 < ic_chunkSize this" and W: "0 < W" and H: "0 < H"
  shows "(\<Sum>c\<leftarrow>grid this W H. c_width c * c_height c) = W * H"
proof -
  let ?S = "ic_chunkSize this"
  have "(\<Sum>c\<leftarrow>grid this W H. c_width c * c_height c)
          = (\<Sum>(col, row)\<leftarrow>row_major (ceil_div W ?S) (ceil_div H ?S).
               min ?S (W - int col * ?S) * min ?S (H - int row * ?S))"
    by (simp add: grid_def comp_def split_def chunk_at_def)
  also have "\<dots> = (\<Sum>col\<leftarrow>[0..<ceil_div W ?S]. min ?S (W - int col * ?S))
                   * (\<Sum>row\<leftarrow>[0..<ceil_div H ?S]. min ?S (H - int row * ?S))"
    by (rule sum_row_major)
  also have "\<dots> = W * H"
    by (simp add: sum_widths [OF S W] sum_widths [OF S H])
  finally show ?thesis .
qed

text \<open>
  C2. Let the image library report a positive width \<open>W\<close> and height \<open>H\<close>, let the
  tile size be positive, and let none of the chunker's requests throw. Then the chunker
  returns a manifest of the \<open>W \<times> H\<close> image in which the rectangles of two different
  regions share no pixel, a pixel lies in some region exactly when it lies in the
  \<open>W \<times> H\<close> image, and the areas of the regions add up to \<open>W * H\<close>.
\<close>

theorem partition_tiles_image:
  assumes W: "0 < W" and H: "0 < H" and S: "0 < ic_chunkSize this"
    and mk: "fs_mkdir env (ic_outputDir this) (world s) = (Inr u, w1)"
    and rd: "sharp_metadata env inputPath w1 = (Inr (Some W, Some H), w2)"
    and ex: "extract_all env this inputPath W H
               (row_major (ceil_div W (ic_chunkSize this)) (ceil_div H (ic_chunkSize this))) w2
             = Some w3"
    and wr: "fs_writeFile env (path_join (ic_outputDir this) ''metadata.json'')
               (JSON_stringify (grid_manifest this W H)) w3 = (Inr u', w4)"
  shows
    "\<exists>m s'. chunkImage env this inputPath s = Some (Inr m, s') \<and>
       totalWidth m = W \<and> totalHeight m = H \<and>
       (\<forall>i < length (chunks m). \<forall>j < length (chunks m). i \<noteq> j \<longrightarrow>
          (\<forall>px py. \<not> (in_rect (chunks m ! i) px py \<and> in_rect (chunks m ! j) px py))) \<and>
       (\<forall>px py. (\<exists>i < length (chunks m). in_rect (chunks m ! i) px py)
                  \<longleftrightarrow> 0 \<le> px \<and> px < W \<and> 0 \<le> py \<and> py < H) \<and>
       (\<Sum>c\<leftarrow>chunks m. c_width c * c_height c) = W * H"
proof -
  define m where "m = grid_manifest this W H"
  from W H S have nz: "ic_chunkSize this \<noteq> 0" "W \<noteq> 0" "H \<noteq> 0" by simp_all
  from chunkImage_produces [OF nz mk rd ex wr] obtain s' where
    run: "chunkImage env this inputPath s = Some (Inr m, s')"
    by (simp add: m_def)
  have g: "chunks m = grid this W H" and dims: "totalWidth m = W" "totalHeight m = H"
    by (simp_all add: m_def grid_manifest_def)
  have disj: "\<forall>i < length (chunks m). \<forall>j < length (chunks m). i \<noteq> j \<longrightarrow>
        (\<forall>px py. \<not> (in_rect (chunks m ! i) px py \<and> in_rect (chunks m ! j) px py))"
    unfolding g using tiling_disjoint [OF S] by blast
  have cover: "\<forall>px py. (\<exists>i < length (chunks m). in_rect (chunks m ! i) px py)
                \<longleftrightarrow> 0 \<le> px \<and> px < W \<and> 0 \<le> py \<and> py < H"
    unfolding g using tiling_cover [OF S] by blast
  have area: "(\<Sum>c\<leftarrow>chunks m. c_width c * c_height c) = W * H"
    unfolding g by (rule tiling_area [OF S W H])
  show ?thesis
    apply (rule exI [of _ m])
    apply (rule exI [of _ s'])
    apply (intro conjI)
         apply (rule run)
        apply (rule dims(1))
       apply (rule dims(2))
      apply (rule disj)
     apply (rule cover)
    apply (rule area)
    done
qed

theorem partition_tiles_image_witness:
  "fs_mkdir (sim_io (Some 3) (Some 3) [] True) (ic_outputDir demo_chunker) (world start)
     = (Inr (), ()) \<and>
   sharp_metadata (sim_io (Some 3) (Some 3) [] True) ''in.png'' () = (Inr (Some 3, Some 3), ()) \<and>
   extract_all (sim_io (Some 3) (Some 3) [] True) demo_chunker ''in.png'' 3 3
     (row_major (ceil_div 3 (ic_chunkSize demo_chunker)) (ceil_div 3 (ic_chunkSize demo_chunker))) ()
     = Some () \<and>
   fs_writeFile (sim_io (Some 3) (Some 3) [] True)
     (path_join (ic_outputDir demo_chunker) ''metadata.json'')
     (JSON_stringify (grid_manifest demo_chunker 3 3)) () = (Inr (), ()) \<and>
   0 < ic_chunkSize demo_chunker \<and>
   chunkImage (sim_io (Some 3) (Some 3) [] True) demo_chunker ''in.png'' start
     = Some (Inr demo_grid_manifest, \<lparr>world = (), trace = demo_grid_trace\<rparr>) \<and>
   length (chunks demo_grid_manifest) = 4 \<and>
   in_rect (chunks demo_grid_manifest ! 3) 2 2 \<and>
   \<not> in_rect (chunks demo_grid_manifest ! 0) 2 2 \<and>
   \<not> in_rect (chunks demo_grid_manifest ! 1) 2 2 \<and>
   \<not> in_rect (chunks demo_grid_manifest ! 2) 2 2 \<and>
   (\<Sum>c\<leftarrow>chunks demo_grid_manifest. c_width c * c_height c) = 3 * 3"
proof -
  have S: "0 < ic_chunkSize demo_chunker" by (simp add: demo_chunker_fields)
  have pos: "(0::int) < 3" by simp
  from partition_tiles_image [OF pos pos S demo_grid_io]
  obtain m s' where
    run: "chunkImage (sim_io (Some 3) (Some 3) [] True) demo_chunker ''in.png'' start
            = Some (Inr m, s')"
    and disj: "\<forall>i < length (chunks m). \<forall>j < length (chunks m). i \<noteq> j \<longrightarrow>
          (\<forall>px py. \<not> (in_rect (chunks m ! i) px py \<and> in_rect (chunks m ! j) px py))"
    and area: "(\<Sum>c\<leftarrow>chunks m. c_width c * c_height c) = 3 * 3"
    by (elim exE conjE) blast
  from run have m: "m = demo_grid_manifest" by (simp add: demo_grid_chunkImage)
  have len: "length (chunks demo_grid_manifest) = 4"
    by (simp add: demo_grid_manifest_def)
  have three: "in_rect (chunks demo_grid_manifest ! 3) 2 2"
    by (simp add: demo_grid_manifest_def in_rect_def)
  note d = disj [unfolded m len, rule_format]
  have n0: "\<not> in_rect (chunks demo_grid_manifest ! 0) 2 2"
    using d [of 0 3 2 2] three by simp
  have n1: "\<not> in_rect (chunks demo_grid_manifest ! 1) 2 2"
    using d [of 1 3 2 2] three by simp
  have n2: "\<not> in_rect (chunks demo_grid_manifest ! 2) 2 2"
    using d [of 2 3 2 2] three by simp
  from area have ar: "(\<Sum>c\<leftarrow>chunks demo_grid_manifest. c_width c * c_height c) = 3 * 3"
    by (simp only: m)
  from demo_grid_io S demo_grid_chunkImage len three n0 n1 n2 ar
  show ?thesis by (simp only: simp_thms)
qed

section \<open>The tile compressor\<close>

lemma request_trace: "request ev prim s = (r, s') \<Longrightarrow> trace s' = trace s @ [ev]"
  by (auto simp: request_def split: prod.splits)

lemma request_world: "request ev prim s = (r, s') \<Longrightarrow> prim (world s) = (r, world s')"
  by (auto simp: request_def split: prod.splits)

lemma convertFile_try_trace:
  assumes "convertFile_try env this inp outp t s = (r, s')"
  shows "filter is_access (trace s') = filter is_access (trace s) @ [Access inp] \<and>
         filter is_write (trace s') = filter is_write (trace s)"
  using assms
  by (auto simp: convertFile_try_def Let_def request_def split: prod.splits sum.splits)

lemma convertFile_try_Inr:
  assumes "convertFile_try env this inp outp t s = (Inr r, s')"
  shows "success r \<and> inputFile r = inp \<and>
         outputFile r = nullish outp (replace_image_ext inp)"
  using assms
  by (auto simp: convertFile_try_def Let_def split: prod.splits sum.splits)

lemma convertFile_cases:
  obtains (ok) r s' where
      "convertFile_try env this inp outp (Date_now env (world s)) s = (Inr r, s')"
      "convertFile env this inp outp s = (Inr r, s')"
  | (failed) e s' where
      "convertFile_try env this inp outp (Date_now env (world s)) s = (Inl e, s')"
      "convertFile env this inp outp s =
         (Inr \<lparr>success = False, inputFile = inp,
               outputFile = nullish outp (replace_image_ext inp),
               originalSize = 0, compressedSize = 0, compressionRatio = Fin 0,
               mode = tf_mode this,
               duration = Date_now env (world s') - Date_now env (world s),
               error = Some (errorMessage e)\<rparr>, s')"
proof (cases "convertFile_try env this inp outp (Date_now env (world s)) s")
  case (Pair res s')
  show ?thesis
  proof (cases res)
    case (Inl e)
    with Pair show ?thesis
      by (intro failed [of e s']) (simp_all add: convertFile_def Let_def)
  next
    case (Inr r)
    with Pair show ?thesis
      by (intro ok [of r s']) (simp_all add: convertFile_def Let_def)
  qed
qed

lemma convertFile_outcome:
  "\<exists>r s'. convertFile env this inp outp s = (Inr r, s') \<and>
     inputFile r = inp \<and> outputFile r = nullish outp (replace_image_ext inp) \<and>
     (\<not> success r \<longrightarrow> originalSize r = 0 \<and> compressedSize r = 0 \<and>
        compressionRatio r = Fin 0 \<and> (\<exists>e. error r = Some (errorMessage e))) \<and>
     filter is_access (trace s') = filter is_access (trace s) @ [Access inp] \<and>
     filter is_write (trace s') = filter is_write (trace s)"
proof (cases rule: convertFile_cases [of env this inp outp s])
  case (ok r s')
  with convertFile_try_Inr [OF ok(1)] convertFile_try_trace [OF ok(1)] show ?thesis by simp
next
  case (failed e s')
  with convertFile_try_trace [OF failed(1)] show ?thesis by auto
qed

section \<open>Failures of the tile compressor\<close>

lemma errorMessage_case:
  "errorMessage e = (case e of Error message \<Rightarrow> message | NonError text \<Rightarrow> text)"
  by (cases e) simp_all

text \<open>
  C6. \<^verbatim>\<open>convertFile\<close> always returns an outcome and never throws. An outcome that is
  not a success has both sizes and the ratio zero and carries an error text. When a
  step of the conversion throws (the input file cannot be accessed or read, the
  encoder's invocation fails, or the output file cannot be read afterwards), the
  outcome has \<open>success = false\<close> and its error text is taken from the thrown value: the
  message of an \<^verbatim>\<open>Error\<close> object, the string form of any other value.
\<close>

theorem convertFile_failure_outcome:
  "\<exists>r s'. convertFile env this inputPath outputPath s = (Inr r, s') \<and>
     (\<not> success r \<longrightarrow>
        originalSize r = 0 \<and> compressedSize r = 0 \<and> compressionRatio r = Fin 0 \<and>
        error r \<noteq> None) \<and>
     (\<forall>e w. fs_access env inputPath (world s) = (Inl e, w) \<longrightarrow>
        \<not> success r \<and> error r = Some (case e of Error message \<Rightarrow> message | NonError text \<Rightarrow> text)) \<and>
     (\<forall>u w1 e w2.
        fs_access env inputPath (world s) = (Inr u, w1) \<and>
        fs_stat env inputPath w1 = (Inl e, w2) \<longrightarrow>
        \<not> success r \<and> error r = Some (case e of Error message \<Rightarrow> message | NonError text \<Rightarrow> text)) \<and>
     (\<forall>u w1 n w2 e w3.
        fs_access env inputPath (world s) = (Inr u, w1) \<and>
        fs_stat env inputPath w1 = (Inr n, w2) \<and>
        execAsync env (buildToktxCommand this inputPath
                         (nullish outputPath (replace_image_ext inputPath))) w2 = (Inl e, w3) \<longrightarrow>
        \<not> success r \<and> error r = Some (case e of Error message \<Rightarrow> message | NonError text \<Rightarrow> text)) \<and>
     (\<forall>u w1 n w2 u' w3 e w4.
        fs_access env inputPath (world s) = (Inr u, w1) \<and>
        fs_stat env inputPath w1 = (Inr n, w2) \<and>
        execAsync env (buildToktxCommand this inputPath
                         (nullish outputPath (replace_image_ext inputPath))) w2 = (Inr u', w3) \<and>
        fs_stat env (nullish outputPath (replace_image_ext inputPath)) w3 = (Inl e, w4) \<longrightarrow>
        \<not> success r \<and> error r = Some (case e of Error message \<Rightarrow> message | NonError text \<Rightarrow> text))"
proof -
  from convertFile_outcome [of env this inputPath outputPath s]
  obtain r s' where run: "convertFile env this inputPath outputPath s = (Inr r, s')"
    and zero: "\<not> success r \<longrightarrow>
        originalSize r = 0 \<and> compressedSize r = 0 \<and> compressionRatio r = Fin 0 \<and>
        error r \<noteq> None"
    by (auto simp: errorMessage_case)
  have a: "\<not> success r \<and> error r = Some (case e of Error message \<Rightarrow> message | NonError text \<Rightarrow> text)"
    if "fs_access env inputPath (world s) = (Inl e, w)" for e w
    using run that
    by (auto simp: convertFile_def convertFile_try_def request_def Let_def errorMessage_case)
  have b: "\<not> success r \<and> error r = Some (case e of Error message \<Rightarrow> message | NonError text \<Rightarrow> text)"
    if "fs_access env inputPath (world s) = (Inr u, w1)"
       "fs_stat env inputPath w1 = (Inl e, w2)" for u w1 e w2
    using run that
    by (auto simp: convertFile_def convertFile_try_def request_def Let_def errorMessage_case)
  have c: "\<not> success r \<and> error r = Some (case e of Error message \<Rightarrow> message | NonError text \<Rightarrow> text)"
    if "fs_access env inputPath (world s) = (Inr u, w1)"
       "fs_stat env inputPath w1 = (Inr n, w2)"
       "execAsync env (buildToktxCommand this inputPath
                         (nullish outputPath (replace_image_ext inputPath))) w2 = (Inl e, w3)"
    for u w1 n w2 e w3
    using run that
    by (auto simp: convertFile_def convertFile_try_def request_def Let_def errorMessage_case)
  have d: "\<not> success r \<and> error r = Some (case e of Error message \<Rightarrow> message | NonError text \<Rightarrow> text)"
    if "fs_access env inputPath (world s) = (Inr u, w1)"
       "fs_stat env inputPath w1 = (Inr n, w2)"
       "execAsync env (buildToktxCommand this inputPath
                         (nullish outputPath (replace_image_ext inputPath))) w2 = (Inr u', w3)"
       "fs_stat env (nullish outputPath (replace_image_ext inputPath)) w3 = (Inl e, w4)"
    for u w1 n w2 u' w3 e w4
    using run that
    by (auto simp: convertFile_def convertFile_try_def request_def Let_def errorMessage_case)
  from a have A: "\<forall>e w. fs_access env inputPath (world s) = (Inl e, w) \<longrightarrow>
        \<not> success r \<and> error r = Some (case e of Error message \<Rightarrow> message | NonError text \<Rightarrow> text)"
    by blast
  from b have B: "\<forall>u w1 e w2.
        fs_access env inputPath (world s) = (Inr u, w1) \<and>
        fs_stat env inputPath w1 = (Inl e, w2) \<longrightarrow>
        \<not> success r \<and> error r = Some (case e of Error message \<Rightarrow> message | NonError text \<Rightarrow> text)"
    by blast
  from c have C: "\<forall>u w1 n w2 e w3.
        fs_access env inputPath (world s) = (Inr u, w1) \<and>
        fs_stat env inputPath w1 = (Inr n, w2) \<and>
        execAsync env (buildToktxCommand this inputPath
                         (nullish outputPath (replace_image_ext inputPath))) w2 = (Inl e, w3) \<longrightarrow>
        \<not> success r \<and> error r = Some (case e of Error message \<Rightarrow> message | NonError text \<Rightarrow> text)"
    by blast
  from d have D: "\<forall>u w1 n w2 u' w3 e w4.
        fs_access env inputPath (world s) = (Inr u, w1) \<and>
        fs_stat env inputPath w1 = (Inr n, w2) \<and>
        execAsync env (buildToktxCommand this inputPath
                         (nullish outputPath (replace_image_ext inputPath))) w2 = (Inr u', w3) \<and>
        fs_stat env (nullish outputPath (replace_image_ext inputPath)) w3 = (Inl e, w4) \<longrightarrow>
        \<not> success r \<and> error r = Some (case e of Error message \<Rightarrow> message | NonError text \<Rightarrow> text)"
    by blast
  show ?thesis
    apply (rule exI [of _ r])
    apply (rule exI [of _ s'])
    apply (intro conjI)
         apply (rule run)
        apply (rule zero)
       apply (rule A)
      apply (rule B)
     apply (rule C)
    apply (rule D)
    done
qed

theorem convertFile_failure_outcome_witness:
  "fs_access (sim_io None None [''a.png''] True) ''a.png'' (world start)
     = (Inl (Error ''ENOENT''), ()) \<and>
   (\<exists>r s'. convertFile (sim_io None None [''a.png''] True) demo_forge ''a.png'' None start
              = (Inr r, s') \<and>
      \<not> success r \<and> originalSize r = 0 \<and> compressedSize r = 0 \<and>
      compressionRatio r = Fin 0 \<and> error r = Some ''ENOENT'') \<and>
   fs_access failing_tool_io ''a.png'' (world start) = (Inr (), ()) \<and>
   fs_stat failing_tool_io ''a.png'' () = (Inr 100, ()) \<and>
   execAsync failing_tool_io
     (buildToktxCommand demo_forge ''a.png'' (nullish None (replace_image_ext ''a.png''))) ()
     = (Inl (NonError ''exit code 1''), ()) \<and>
   (\<exists>r s'. convertFile failing_tool_io demo_forge ''a.png'' None start = (Inr r, s') \<and>
      \<not> success r \<and> originalSize r = 0 \<and> compressedSize r = 0 \<and>
      compressionRatio r = Fin 0 \<and> error r = Some ''exit code 1'')"
proof -
  have acc: "fs_access (sim_io None None [''a.png''] True) ''a.png'' (world start)
               = (Inl (Error ''ENOENT''), ())"
    by (simp add: sim_io_def)
  from convertFile_failure_outcome
         [of "sim_io None None [''a.png''] True" demo_forge "''a.png''" None start]
  obtain r s' where
    run: "convertFile (sim_io None None [''a.png''] True) demo_forge ''a.png'' None start
            = (Inr r, s')"
    and zero: "\<not> success r \<longrightarrow>
        originalSize r = 0 \<and> compressedSize r = 0 \<and> compressionRatio r = Fin 0 \<and>
        error r \<noteq> None"
    and a: "\<forall>e w. fs_access (sim_io None None [''a.png''] True) ''a.png'' (world start)
                     = (Inl e, w) \<longrightarrow>
              \<not> success r \<and>
              error r = Some (case e of Error message \<Rightarrow> message | NonError text \<Rightarrow> text)"
    by (elim exE conjE) blast
  from a [rule_format, OF acc] have "\<not> success r \<and> error r = Some ''ENOENT''"
    by simp
  with zero run have first:
    "\<exists>r s'. convertFile (sim_io None None [''a.png''] True) demo_forge ''a.png'' None start
              = (Inr r, s') \<and>
      \<not> success r \<and> originalSize r = 0 \<and> compressedSize r = 0 \<and>
      compressionRatio r = Fin 0 \<and> error r = Some ''ENOENT''"
    by blast
  have steps:
    "fs_access failing_tool_io ''a.png'' (world start) = (Inr (), ())"
    "fs_stat failing_tool_io ''a.png'' () = (Inr 100, ())"
    "execAsync failing_tool_io
       (buildToktxCommand demo_forge ''a.png'' (nullish None (replace_image_ext ''a.png''))) ()
       = (Inl (NonError ''exit code 1''), ())"
    by (simp_all add: failing_tool_io_def sim_io_def suffix_def)
  from convertFile_failure_outcome [of failing_tool_io demo_forge "''a.png''" None start]
  obtain r2 s2 where
    run2: "convertFile failing_tool_io demo_forge ''a.png'' None start = (Inr r2, s2)"
    and zero2: "\<not> success r2 \<longrightarrow>
        originalSize r2 = 0 \<and> compressedSize r2 = 0 \<and> compressionRatio r2 = Fin 0 \<and>
        error r2 \<noteq> None"
    and c: "\<forall>u w1 n w2 e w3.
        fs_access failing_tool_io ''a.png'' (world start) = (Inr u, w1) \<and>
        fs_stat failing_tool_io ''a.png'' w1 = (Inr n, w2) \<and>
        execAsync failing_tool_io (buildToktxCommand demo_forge ''a.png''
                         (nullish None (replace_image_ext ''a.png''))) w2 = (Inl e, w3) \<longrightarrow>
        \<not> success r2 \<and>
        error r2 = Some (case e of Error message \<Rightarrow> message | NonError text \<Rightarrow> text)"
    by (elim exE conjE) blast
  from c [rule_format, of "()" "()" 100 "()" "NonError ''exit code 1''" "()"] steps
  have "\<not> success r2 \<and> error r2 = Some ''exit code 1''"
    by simp
  with zero2 run2 have second:
    "\<exists>r s'. convertFile failing_tool_io demo_forge ''a.png'' None start = (Inr r, s') \<and>
      \<not> success r \<and> originalSize r = 0 \<and> compressedSize r = 0 \<and>
      compressionRatio r = Fin 0 \<and> error r = Some ''exit code 1''"
    by blast
  from acc first steps second show ?thesis by (simp only: simp_thms)
qed

section \<open>The compress phase of the orchestrator\<close>

lemma compress_loop_Inr:
  assumes "compress_loop env forge cd kd todo visited convs tO tC s
             = (Inr (cs', convs', tO', tC'), s')"
  shows "\<exists>rs. length rs = length todo \<and> convs' = convs @ rs \<and>
           cs' = visited @ map2 renamed todo rs \<and>
           tO' = tO + (\<Sum>r\<leftarrow>filter success rs. originalSize r) \<and>
           tC' = tC + (\<Sum>r\<leftarrow>filter success rs. compressedSize r) \<and>
           map inputFile rs = map (\<lambda>c. path_join cd (c_filename c)) todo \<and>
           map outputFile rs
             = map (\<lambda>c. path_join kd (js_replace ''.png'' ''.ktx2'' (c_filename c))) todo \<and>
           filter is_access (trace s')
             = filter is_access (trace s) @ map (\<lambda>c. Access (path_join cd (c_filename c))) todo \<and>
           filter is_write (trace s') = filter is_write (trace s)"
  using assms
proof (induction todo arbitrary: visited convs tO tC s)
  case Nil
  then show ?case by simp
next
  case (Cons chunk rest)
  let ?inp = "path_join cd (c_filename chunk)"
  let ?out = "path_join kd (js_replace ''.png'' ''.ktx2'' (c_filename chunk))"
  from convertFile_outcome [of env forge ?inp "Some ?out" s]
  obtain r s1 where
    cf: "convertFile env forge ?inp (Some ?out) s = (Inr r, s1)" and
    io: "inputFile r = ?inp" "outputFile r = ?out" and
    tr: "filter is_access (trace s1) = filter is_access (trace s) @ [Access ?inp]"
        "filter is_write (trace s1) = filter is_write (trace s)"
    by auto
  from Cons.prems cf have rest:
    "compress_loop env forge cd kd rest (visited @ [renamed chunk r]) (convs @ [r])
       (if success r then tO + originalSize r else tO)
       (if success r then tC + compressedSize r else tC) s1
     = (Inr (cs', convs', tO', tC'), s')"
    by (simp add: Let_def renamed_def split: if_splits)
  from Cons.IH [OF rest] obtain rs where
    rs: "length rs = length rest" "convs' = (convs @ [r]) @ rs"
      "cs' = (visited @ [renamed chunk r]) @ map2 renamed rest rs"
      "tO' = (if success r then tO + originalSize r else tO)
               + (\<Sum>r\<leftarrow>filter success rs. originalSize r)"
      "tC' = (if success r then tC + compressedSize r else tC)
               + (\<Sum>r\<leftarrow>filter success rs. compressedSize r)"
      "map inputFile rs = map (\<lambda>c. path_join cd (c_filename c)) rest"
      "map outputFile rs
         = map (\<lambda>c. path_join kd (js_replace ''.png'' ''.ktx2'' (c_filename c))) rest"
      "filter is_access (trace s')
         = filter is_access (trace s1) @ map (\<lambda>c. Access (path_join cd (c_filename c))) rest"
      "filter is_write (trace s') = filter is_write (trace s1)"
    by blast
  show ?case
    by (rule exI [of _ "r # rs"]) (use rs io tr in simp)
qed

lemma compress_loop_returns:
  "\<exists>x s'. compress_loop env forge cd kd todo visited convs tO tC s = (Inr x, s')"
proof (induction todo arbitrary: visited convs tO tC s)
  case Nil
  then show ?case by simp
next
  case (Cons chunk rest)
  from convertFile_outcome
         [of env forge "path_join cd (c_filename chunk)"
             "Some (path_join kd (js_replace ''.png'' ''.ktx2'' (c_filename chunk)))" s]
  obtain r s1 where
    "convertFile env forge (path_join cd (c_filename chunk))
       (Some (path_join kd (js_replace ''.png'' ''.ktx2'' (c_filename chunk)))) s = (Inr r, s1)"
    by blast
  with Cons.IH show ?case by (simp add: Let_def)
qed


lemma convertFile_events:
  assumes "convertFile env this inp outp s = (r, s')"
  shows "\<exists>evs. trace s' = trace s @ evs \<and> (\<forall>ev \<in> set evs. is_convert ev)"
  using assms
  by (auto simp: convertFile_def convertFile_try_def request_def Let_def
           split: prod.splits sum.splits)


lemma compress_loop_events:
  assumes "compress_loop env forge cd kd todo visited convs tO tC s = (r, s')"
  shows "\<exists>evs. trace s' = trace s @ evs \<and> (\<forall>ev \<in> set evs. is_convert ev)"
  using assms
proof (induction todo arbitrary: visited convs tO tC s)
  case Nil
  then show ?case by auto
next
  case (Cons chunk rest)
  let ?inp = "path_join cd (c_filename chunk)"
  let ?out = "path_join kd (js_replace ''.png'' ''.ktx2'' (c_filename chunk))"
  from convertFile_outcome [of env forge ?inp "Some ?out" s]
  obtain res s1 where cf: "convertFile env forge ?inp (Some ?out) s = (Inr res, s1)"
    by blast
  from convertFile_events [OF cf] obtain e1 where
    e1: "trace s1 = trace s @ e1" "\<forall>ev \<in> set e1. is_convert ev"
    by blast
  have "\<exists>visited' tO' tC'.
          compress_loop env forge cd kd rest visited' (convs @ [res]) tO' tC' s1 = (r, s')"
    using Cons.prems cf by (cases "success res") (auto simp: Let_def)
  then obtain visited' tO' tC' where
    "compress_loop env forge cd kd rest visited' (convs @ [res]) tO' tC' s1 = (r, s')"
    by blast
  from Cons.IH [OF this] obtain e2 where
    e2: "trace s' = trace s1 @ e2" "\<forall>ev \<in> set e2. is_convert ev"
    by blast
  have "trace s' = trace s @ (e1 @ e2)" by (simp add: e1 e2)
  moreover have "\<forall>ev \<in> set (e1 @ e2). is_convert ev" using e1 e2 by auto
  ultimately show ?case by blast
qed


section \<open>What a run of the pipeline returns\<close>

lemma js_replace_png:
  "CHR ''.'' \<notin> set p \<Longrightarrow> js_replace ''.png'' ''.ktx2'' (p @ ''.png'') = p @ ''.ktx2''"
  by (induction p) auto

lemma filter_extract_events:
  "filter is_access (map (\<lambda>(col, row). extract_event this img W H col row) xs) = []"
  "filter is_write (map (\<lambda>(col, row). extract_event this img W H col row) xs) = []"
  by (induction xs) (auto simp: extract_event_def)

lemma processMapToKTX2_Inr:
  assumes "processMapToKTX2 env options s = Some (Inr res, s')"
  shows "\<exists>m0 s1 tr.
      chunkImage env (pipeline_chunker options) (po_input options) s = Some (Inr m0, s1) \<and>
      length (conversions res) = length (chunks m0) \<and>
      metadata res = m0\<lparr>chunks := map2 renamed (chunks m0) (conversions res), format := ktx2\<rparr> \<and>
      totalOriginalSize res = (\<Sum>r\<leftarrow>filter success (conversions res). originalSize r) \<and>
      totalCompressedSize res = (\<Sum>r\<leftarrow>filter success (conversions res). compressedSize r) \<and>
      totalSaved res = totalOriginalSize res - totalCompressedSize res \<and>
      pr_compressionRatio res
        = js_mul (js_sub (Fin 1) (js_div (Fin (real_of_int (totalCompressedSize res)))
                                         (Fin (real_of_int (totalOriginalSize res))))) (Fin 100) \<and>
      map inputFile (conversions res)
        = map (\<lambda>c. path_join (path_join (po_outputDir options) ''chunks_temp'') (c_filename c))
            (chunks m0) \<and>
      map outputFile (conversions res)
        = map (\<lambda>c. path_join (path_join (po_outputDir options) ''chunks'')
                     (js_replace ''.png'' ''.ktx2'' (c_filename c))) (chunks m0) \<and>
      filter is_access tr
        = filter is_access (trace s1)
          @ map (\<lambda>c. Access (path_join (path_join (po_outputDir options) ''chunks_temp'')
                                 (c_filename c))) (chunks m0) \<and>
      filter is_write tr = filter is_write (trace s1) \<and>
      trace s' = tr @ [Rm (path_join (po_outputDir options) ''chunks_temp''),
                       WriteFile (path_join (path_join (po_outputDir options) ''chunks'')
                                    ''metadata.json'') (JSON_stringify (metadata res))]"
  using assms
  apply (clarsimp simp: processMapToKTX2_def pipeline_chunker_def [symmetric] Let_def request_def
             simp del: js_div.simps js_sub.simps js_mul.simps
             split: option.splits prod.splits sum.splits)
  apply (drule compress_loop_Inr)
  apply (clarsimp simp del: js_div.simps js_sub.simps js_mul.simps)
  done


lemma demo_run:
  "processMapToKTX2 (sim_io (Some 3) (Some 2) [''out/chunks_temp/1_0.png''] True)
     demo_options start = Some (Inr demo_report, demo_final)"
  by code_simp

lemma demo_failed_run:
  "map_option fst
     (processMapToKTX2
        (sim_io (Some 3) (Some 2) [''out/chunks_temp/0_0.png'', ''out/chunks_temp/1_0.png''] True)
        demo_options start)
     = Some (Inr demo_failed_report)"
  by code_simp


lemma pipeline_chunker_fields:
  "ic_format (pipeline_chunker options) = png"
  "ic_chunkSize (pipeline_chunker options) = nullish (po_chunkSize options) 1024"
  "ic_outputDir (pipeline_chunker options) = path_join (po_outputDir options) ''chunks_temp''"
  by (simp_all add: pipeline_chunker_def ImageChunker_new_def)

lemma grid_entry_png:
  assumes "ic_format this = png" and "c \<in> set (grid this W H)"
  shows "c_filename c = c_id c @ ''.png''" and "CHR ''.'' \<notin> set (c_id c)"
proof -
  from assms(2) obtain col row where c: "c = chunk_at this W H col row"
    by (auto simp: grid_def)
  show "c_filename c = c_id c @ ''.png''"
    unfolding c chunk_filename_id by (simp add: assms(1))
  show "CHR ''.'' \<notin> set (c_id c)"
    unfolding c by (rule chunk_id_no_dot)
qed

lemma renamed_png:
  assumes "c_filename c = c_id c @ ''.png''" and "CHR ''.'' \<notin> set (c_id c)"
  shows "renamed c r = c\<lparr>c_filename := c_id c @ (if success r then ''.ktx2'' else ''.png'')\<rparr>"
  using assms js_replace_png [OF assms(2)] by (simp add: renamed_def)

lemma pipeline_run:
  assumes "processMapToKTX2 env options s = Some (Inr res, s')"
  obtains m0 s1 tr where
    "chunkImage env (pipeline_chunker options) (po_input options) s = Some (Inr m0, s1)"
    "chunks m0 = grid (pipeline_chunker options) (totalWidth m0) (totalHeight m0)"
    "format m0 = png"
    "length (conversions res) = length (chunks m0)"
    "metadata res = m0\<lparr>chunks := map2 renamed (chunks m0) (conversions res), format := ktx2\<rparr>"
    "map inputFile (conversions res)
       = map (\<lambda>c. path_join (path_join (po_outputDir options) ''chunks_temp'') (c_filename c))
           (chunks m0)"
    "map outputFile (conversions res)
       = map (\<lambda>c. path_join (path_join (po_outputDir options) ''chunks'')
                    (js_replace ''.png'' ''.ktx2'' (c_filename c))) (chunks m0)"
    "filter is_access tr
       = filter is_access (trace s)
         @ map (\<lambda>c. Access (path_join (path_join (po_outputDir options) ''chunks_temp'')
                                (c_filename c))) (chunks m0)"
    "filter is_write tr
       = filter is_write (trace s)
         @ [WriteFile (path_join (path_join (po_outputDir options) ''chunks_temp'') ''metadata.json'')
              (JSON_stringify m0)]"
    "trace s' = tr @ [Rm (path_join (po_outputDir options) ''chunks_temp''),
                      WriteFile (path_join (path_join (po_outputDir options) ''chunks'')
                                   ''metadata.json'') (JSON_stringify (metadata res))]"
proof -
  from processMapToKTX2_Inr [OF assms] obtain m0 s1 tr where
    ci: "chunkImage env (pipeline_chunker options) (po_input options) s = Some (Inr m0, s1)" and
    len: "length (conversions res) = length (chunks m0)" and
    md: "metadata res = m0\<lparr>chunks := map2 renamed (chunks m0) (conversions res), format := ktx2\<rparr>" and
    inp: "map inputFile (conversions res)
       = map (\<lambda>c. path_join (path_join (po_outputDir options) ''chunks_temp'') (c_filename c))
           (chunks m0)" and
    outp: "map outputFile (conversions res)
       = map (\<lambda>c. path_join (path_join (po_outputDir options) ''chunks'')
                    (js_replace ''.png'' ''.ktx2'' (c_filename c))) (chunks m0)" and
    acc: "filter is_access tr
        = filter is_access (trace s1)
          @ map (\<lambda>c. Access (path_join (path_join (po_outputDir options) ''chunks_temp'')
                                 (c_filename c))) (chunks m0)" and
    wr: "filter is_write tr = filter is_write (trace s1)" and
    tr: "trace s' = tr @ [Rm (path_join (po_outputDir options) ''chunks_temp''),
                       WriteFile (path_join (path_join (po_outputDir options) ''chunks'')
                                    ''metadata.json'') (JSON_stringify (metadata res))]"
    by (elim exE conjE) blast
  note ch = chunkImage_Inr [OF ci]
  from ch have g: "chunks m0 = grid (pipeline_chunker options) (totalWidth m0) (totalHeight m0)"
    and f: "format m0 = png"
    by (simp_all add: pipeline_chunker_fields)
  from ch have t1: "filter is_access (trace s1) = filter is_access (trace s)"
    by (simp add: filter_extract_events)
  from ch have t2: "filter is_write (trace s1)
       = filter is_write (trace s)
         @ [WriteFile (path_join (path_join (po_outputDir options) ''chunks_temp'') ''metadata.json'')
              (JSON_stringify m0)]"
    by (simp add: filter_extract_events pipeline_chunker_fields)
  show ?thesis
    by (rule that [OF ci g f len md inp outp acc [unfolded t1] wr [unfolded t2] tr])
qed

lemma pipeline_entry:
  assumes g: "cs0 = grid (pipeline_chunker options) W H"
    and len: "length rs = length cs0" and i: "i < length cs0"
  shows "c_filename (cs0 ! i) = c_id (cs0 ! i) @ ''.png''"
    and "map2 renamed cs0 rs ! i
           = (cs0 ! i)\<lparr>c_filename := c_id (cs0 ! i) @ (if success (rs ! i) then ''.ktx2'' else ''.png'')\<rparr>"
    and "js_replace ''.png'' ''.ktx2'' (c_filename (cs0 ! i)) = c_id (cs0 ! i) @ ''.ktx2''"
proof -
  from i have mem: "cs0 ! i \<in> set (grid (pipeline_chunker options) W H)"
    unfolding g by (rule nth_mem)
  note e = grid_entry_png [OF pipeline_chunker_fields(1) mem]
  show "c_filename (cs0 ! i) = c_id (cs0 ! i) @ ''.png''" by (rule e(1))
  from len i show "map2 renamed cs0 rs ! i
           = (cs0 ! i)\<lparr>c_filename := c_id (cs0 ! i) @ (if success (rs ! i) then ''.ktx2'' else ''.png'')\<rparr>"
    by (simp add: renamed_png [OF e])
  show "js_replace ''.png'' ''.ktx2'' (c_filename (cs0 ! i)) = c_id (cs0 ! i) @ ''.ktx2''"
    unfolding e(1) by (rule js_replace_png [OF e(2)])
qed



text \<open>
  C9. When every tile's compression fails, both totals stay 0 and the reported
  \<open>compressionRatio\<close> is \<open>(1 - 0 / 0) * 100\<close>, which is NaN: nothing checks that the
  total original size is positive before dividing by it.
\<close>

theorem all_tiles_failed_ratio_NaN:
  assumes run: "processMapToKTX2 env options s = Some (Inr res, s')"
    and failed: "\<forall>r \<in> set (conversions res). \<not> success r"
  shows "totalOriginalSize res = 0 \<and> totalCompressedSize res = 0 \<and>
         pr_compressionRatio res = js_mul (js_sub (Fin 1) (js_div (Fin 0) (Fin 0))) (Fin 100) \<and>
         pr_compressionRatio res = NaN"
proof -
  from failed have none: "filter success (conversions res) = []"
    by (simp add: filter_empty_conv)
  from processMapToKTX2_Inr [OF run] have
    "totalOriginalSize res = (\<Sum>r\<leftarrow>filter success (conversions res). originalSize r)"
    "totalCompressedSize res = (\<Sum>r\<leftarrow>filter success (conversions res). compressedSize r)"
    "pr_compressionRatio res
        = js_mul (js_sub (Fin 1) (js_div (Fin (real_of_int (totalCompressedSize res)))
                                         (Fin (real_of_int (totalOriginalSize res))))) (Fin 100)"
    by blast+
  then show ?thesis by (simp add: none)
qed

theorem all_tiles_failed_ratio_NaN_witness:
  "(\<exists>s'. processMapToKTX2
            (sim_io (Some 3) (Some 2) [''out/chunks_temp/0_0.png'', ''out/chunks_temp/1_0.png''] True)
            demo_options start = Some (Inr demo_failed_report, s')) \<and>
   map success (conversions demo_failed_report) = [False, False] \<and>
   totalOriginalSize demo_failed_report = 0 \<and> totalCompressedSize demo_failed_report = 0 \<and>
   pr_compressionRatio demo_failed_report = NaN"
proof -
  from demo_failed_run obtain s' where
    run: "processMapToKTX2
            (sim_io (Some 3) (Some 2) [''out/chunks_temp/0_0.png'', ''out/chunks_temp/1_0.png''] True)
            demo_options start = Some (Inr demo_failed_report, s')"
    by auto
  have f: "map success (conversions demo_failed_report) = [False, False]"
    by (simp add: demo_failed_report_def demo_missing_def)
  then have "\<forall>r \<in> set (conversions demo_failed_report). \<not> success r"
    by (simp add: demo_failed_report_def demo_missing_def)
  from all_tiles_failed_ratio_NaN [OF run this] run f show ?thesis by blast
qed

lemma pipeline_trace:
  assumes "processMapToKTX2 env options s = Some (Inr res, s')"
  shows "\<exists>m0 s1 evs.
      chunkImage env (pipeline_chunker options) (po_input options) s = Some (Inr m0, s1) \<and>
      (\<forall>ev \<in> set evs. is_convert ev) \<and>
      trace s' = trace s1 @ Mkdir (path_join (po_outputDir options) ''chunks'') # evs
                 @ [Rm (path_join (po_outputDir options) ''chunks_temp''),
                    WriteFile (path_join (path_join (po_outputDir options) ''chunks'')
                                 ''metadata.json'') (JSON_stringify (metadata res))]"
  using assms
  apply (clarsimp simp: processMapToKTX2_def pipeline_chunker_def [symmetric] Let_def request_def
             simp del: js_div.simps js_sub.simps js_mul.simps
             split: option.splits prod.splits sum.splits)
  apply (drule compress_loop_events)
  apply (clarsimp simp del: js_div.simps js_sub.simps js_mul.simps)
  done





lemma demo_options_fields:
  "po_input demo_options = ''in.png''" "po_outputDir demo_options = ''out''"
  "nullish (po_chunkSize demo_options) 1024 = 2"
  by (simp_all add: demo_options_def)




section \<open>Where and when the manifest is persisted\<close>

text \<open>
  C4, as stated, fails: the two persists of a run do not go to one file
  \<^verbatim>\<open><outputDir>/metadata.json\<close>. For the output directory \<^verbatim>\<open>out\<close> the intermediate
  manifest is written to \<^verbatim>\<open>out/chunks_temp/metadata.json\<close> and the final one to
  \<^verbatim>\<open>out/chunks/metadata.json\<close>.
\<close>

theorem manifest_single_file_counterexample:
  "processMapToKTX2 (sim_io (Some 3) (Some 2) [''out/chunks_temp/1_0.png''] True)
     demo_options start = Some (Inr demo_report, demo_final) \<and>
   filter is_write (trace demo_final)
     = [WriteFile ''out/chunks_temp/metadata.json'' (JSON_stringify demo_manifest),
        WriteFile ''out/chunks/metadata.json'' (JSON_stringify demo_final_manifest)] \<and>
   path_join (po_outputDir demo_options) ''metadata.json'' = ''out/metadata.json'' \<and>
   ''out/chunks_temp/metadata.json'' \<noteq> ''out/metadata.json'' \<and>
   ''out/chunks/metadata.json'' \<noteq> ''out/metadata.json'' \<and>
   ''out/chunks_temp/metadata.json'' \<noteq> ''out/chunks/metadata.json''"
  using demo_run by (simp add: demo_final_def demo_options_def demo_paths)

lemma plain_names:
  "plain_name ''chunks_temp''" "plain_name ''chunks''" "plain_name ''metadata.json''"
  by (simp_all add: plain_name_def)

lemma filter_access_convert_tail:
  "filter is_access (xs @ Mkdir d # evs) = filter is_access xs @ filter is_access evs"
  by simp

text \<open>
  C4, amended. A run of the pipeline that returns a report persists the manifest exactly
  twice. The first write comes right after partitioning (after the last tile is
  written and before the compressor's first request), has format tag \<^verbatim>\<open>png\<close> and the
  intermediate filenames, and goes to \<^verbatim>\<open><outputDir>/chunks_temp/metadata.json\<close>. The
  second comes after all compression attempts and the cleanup, has format tag
  \<^verbatim>\<open>ktx2\<close>, and goes to \<^verbatim>\<open><outputDir>/chunks/metadata.json\<close>. These are two
  different files, neither is \<^verbatim>\<open><outputDir>/metadata.json\<close>, and the last two
  requests of the run are the removal of \<^verbatim>\<open><outputDir>/chunks_temp\<close>, which held
  the intermediate manifest, and the final write.
\<close>

theorem manifest_persisted_twice:
  assumes run: "processMapToKTX2 env options s = Some (Inr res, s')"
  shows
    "filter is_write (trace s')
       = filter is_write (trace s)
         @ [WriteFile (path_join (path_join (po_outputDir options) ''chunks_temp'') ''metadata.json'')
              (JSON_stringify
                 ((metadata res)
                    \<lparr>chunks := map (\<lambda>c. c\<lparr>c_filename := c_id c @ ''.png''\<rparr>) (chunks (metadata res)),
                     format := png\<rparr>)),
            WriteFile (path_join (path_join (po_outputDir options) ''chunks'') ''metadata.json'')
              (JSON_stringify (metadata res))] \<and>
     format (metadata res) = ktx2 \<and>
     (\<exists>evs.
        trace s'
          = trace s
            @ [Mkdir (path_join (po_outputDir options) ''chunks_temp''),
               ReadMetadata (po_input options)]
            @ map (\<lambda>c. ExtractToFile (po_input options)
                         (c_pixelX c) (c_pixelY c) (c_width c) (c_height c)
                         (path_join (path_join (po_outputDir options) ''chunks_temp'')
                            (c_id c @ ''.png''))) (chunks (metadata res))
            @ [WriteFile
                 (path_join (path_join (po_outputDir options) ''chunks_temp'') ''metadata.json'')
                 (JSON_stringify
                    ((metadata res)
                       \<lparr>chunks := map (\<lambda>c. c\<lparr>c_filename := c_id c @ ''.png''\<rparr>)
                                    (chunks (metadata res)),
                        format := png\<rparr>)),
               Mkdir (path_join (po_outputDir options) ''chunks'')]
            @ evs
            @ [Rm (path_join (po_outputDir options) ''chunks_temp''),
               WriteFile (path_join (path_join (po_outputDir options) ''chunks'') ''metadata.json'')
                 (JSON_stringify (metadata res))] \<and>
        (\<forall>ev \<in> set evs. is_convert ev) \<and>
        filter is_access evs
          = map (\<lambda>c. Access (path_join (path_join (po_outputDir options) ''chunks_temp'')
                                 (c_id c @ ''.png''))) (chunks (metadata res))) \<and>
     path_join (path_join (po_outputDir options) ''chunks_temp'') ''metadata.json''
       \<noteq> path_join (path_join (po_outputDir options) ''chunks'') ''metadata.json'' \<and>
     path_join (path_join (po_outputDir options) ''chunks_temp'') ''metadata.json''
       \<noteq> path_join (po_outputDir options) ''metadata.json'' \<and>
     path_join (path_join (po_outputDir options) ''chunks'') ''metadata.json''
       \<noteq> path_join (po_outputDir options) ''metadata.json'' \<and>
     last (butlast (trace s')) = Rm (path_join (po_outputDir options) ''chunks_temp'') \<and>
     last (trace s')
       = WriteFile (path_join (path_join (po_outputDir options) ''chunks'') ''metadata.json'')
           (JSON_stringify (metadata res))"
proof -
  let ?cd = "path_join (po_outputDir options) ''chunks_temp''"
  let ?kd = "path_join (po_outputDir options) ''chunks''"
  let ?pc = "pipeline_chunker options"
  from pipeline_run [OF run] obtain m0 s1 tr where
    ci: "chunkImage env ?pc (po_input options) s = Some (Inr m0, s1)" and
    g: "chunks m0 = grid (pipeline_chunker options) (totalWidth m0) (totalHeight m0)" and
    f: "format m0 = png" and
    len: "length (conversions res) = length (chunks m0)" and
    md: "metadata res = m0\<lparr>chunks := map2 renamed (chunks m0) (conversions res), format := ktx2\<rparr>" and
    acc: "filter is_access tr
       = filter is_access (trace s)
         @ map (\<lambda>c. Access (path_join (path_join (po_outputDir options) ''chunks_temp'')
                                (c_filename c))) (chunks m0)" and
    wr: "filter is_write tr
       = filter is_write (trace s)
         @ [WriteFile (path_join (path_join (po_outputDir options) ''chunks_temp'') ''metadata.json'')
              (JSON_stringify m0)]" and
    tr: "trace s' = tr @ [Rm (path_join (po_outputDir options) ''chunks_temp''),
                      WriteFile (path_join (path_join (po_outputDir options) ''chunks'')
                                   ''metadata.json'') (JSON_stringify (metadata res))]"
    by blast
  have undo: "map (\<lambda>c. c\<lparr>c_filename := c_id c @ ''.png''\<rparr>)
                (map2 renamed (chunks m0) (conversions res)) = chunks m0"
  proof (rule nth_equalityI)
    show "length (map (\<lambda>c. c\<lparr>c_filename := c_id c @ ''.png''\<rparr>)
                    (map2 renamed (chunks m0) (conversions res))) = length (chunks m0)"
      by (simp add: len)
  next
    fix i
    assume "i < length (map (\<lambda>c. c\<lparr>c_filename := c_id c @ ''.png''\<rparr>)
                    (map2 renamed (chunks m0) (conversions res)))"
    then have i: "i < length (chunks m0)" by (simp add: len)
    note e = pipeline_entry [OF g len i]
    have "(chunks m0 ! i)\<lparr>c_filename := c_filename (chunks m0 ! i)\<rparr> = chunks m0 ! i"
      by simp
    with e i len show "map (\<lambda>c. c\<lparr>c_filename := c_id c @ ''.png''\<rparr>)
                    (map2 renamed (chunks m0) (conversions res)) ! i = chunks m0 ! i"
      by simp
  qed
  have m0: "(metadata res)
              \<lparr>chunks := map (\<lambda>c. c\<lparr>c_filename := c_id c @ ''.png''\<rparr>) (chunks (metadata res)),
               format := png\<rparr> = m0"
  proof -
    have "chunks (metadata res) = map2 renamed (chunks m0) (conversions res)"
      by (simp add: md)
    then have "map (\<lambda>c. c\<lparr>c_filename := c_id c @ ''.png''\<rparr>) (chunks (metadata res)) = chunks m0"
      by (simp only: undo)
    moreover have "(metadata res)\<lparr>chunks := chunks m0, format := png\<rparr> = m0"
      using f by (simp add: md)
    ultimately show ?thesis by simp
  qed
  have A: "filter is_write (trace s')
       = filter is_write (trace s)
         @ [WriteFile (path_join (path_join (po_outputDir options) ''chunks_temp'') ''metadata.json'')
              (JSON_stringify
                 ((metadata res)
                    \<lparr>chunks := map (\<lambda>c. c\<lparr>c_filename := c_id c @ ''.png''\<rparr>) (chunks (metadata res)),
                     format := png\<rparr>)),
            WriteFile (path_join (path_join (po_outputDir options) ''chunks'') ''metadata.json'')
              (JSON_stringify (metadata res))]"
    unfolding m0 by (simp add: tr wr)
  have B: "format (metadata res) = ktx2" by (simp add: md)
  from pipeline_trace [OF run] ci obtain evs where
    conv: "\<forall>ev \<in> set evs. is_convert ev" and
    tr2: "trace s' = trace s1 @ Mkdir ?kd # evs
                 @ [Rm ?cd, WriteFile (path_join ?kd ''metadata.json'')
                                 (JSON_stringify (metadata res))]"
    by auto
  let ?W = "totalWidth m0" and ?H = "totalHeight m0"
  let ?rm = "row_major (ceil_div ?W (ic_chunkSize ?pc)) (ceil_div ?H (ic_chunkSize ?pc))"
  let ?tiles = "map (\<lambda>c. ExtractToFile (po_input options)
                         (c_pixelX c) (c_pixelY c) (c_width c) (c_height c)
                         (path_join ?cd (c_id c @ ''.png''))) (chunks (metadata res))"
  from chunkImage_Inr [OF ci] have t1:
    "trace s1 = trace s @ [Mkdir ?cd, ReadMetadata (po_input options)]
       @ map (\<lambda>(col, row). extract_event ?pc (po_input options) ?W ?H col row) ?rm
       @ [WriteFile (path_join ?cd ''metadata.json'') (JSON_stringify m0)]"
    by (simp add: pipeline_chunker_fields)
  have cs0: "chunks m0 = map (\<lambda>c. c\<lparr>c_filename := c_id c @ ''.png''\<rparr>) (chunks (metadata res))"
    using arg_cong [OF m0, of chunks] by simp
  have "map (\<lambda>(col, row). extract_event ?pc (po_input options) ?W ?H col row) ?rm
        = map (\<lambda>c. ExtractToFile (po_input options)
                         (c_pixelX c) (c_pixelY c) (c_width c) (c_height c)
                         (path_join ?cd (c_filename c))) (chunks m0)"
    unfolding g grid_def
    by (simp add: extract_event_def split_def pipeline_chunker_fields comp_def)
  also have "\<dots> = ?tiles"
    unfolding cs0 by (simp add: comp_def)
  finally have tiles:
    "map (\<lambda>(col, row). extract_event ?pc (po_input options) ?W ?H col row) ?rm = ?tiles" .
  have T1: "trace s'
          = trace s @ [Mkdir ?cd, ReadMetadata (po_input options)] @ ?tiles
            @ [WriteFile (path_join ?cd ''metadata.json'')
                 (JSON_stringify
                    ((metadata res)
                       \<lparr>chunks := map (\<lambda>c. c\<lparr>c_filename := c_id c @ ''.png''\<rparr>)
                                    (chunks (metadata res)),
                        format := png\<rparr>)),
               Mkdir ?kd]
            @ evs
            @ [Rm ?cd, WriteFile (path_join ?kd ''metadata.json'') (JSON_stringify (metadata res))]"
    unfolding m0 tr2 t1 tiles by simp
  from tr tr2 have tr_eq: "tr = trace s1 @ Mkdir ?kd # evs" by simp
  have a1: "filter is_access (trace s1) = filter is_access (trace s)"
    unfolding t1 by (simp add: filter_extract_events)
  have "filter is_access (trace s) @ filter is_access evs
          = filter is_access (trace s)
            @ map (\<lambda>c. Access (path_join ?cd (c_filename c))) (chunks m0)"
    using acc unfolding tr_eq filter_access_convert_tail a1 .
  then have "filter is_access evs = map (\<lambda>c. Access (path_join ?cd (c_filename c))) (chunks m0)"
    by simp
  also have "\<dots> = map (\<lambda>c. Access (path_join ?cd (c_id c @ ''.png''))) (chunks (metadata res))"
    unfolding cs0 by (simp add: comp_def)
  finally have T3: "filter is_access evs
          = map (\<lambda>c. Access (path_join ?cd (c_id c @ ''.png''))) (chunks (metadata res))" .
  from T1 conv T3 have T: "\<exists>evs.
        trace s'
          = trace s @ [Mkdir ?cd, ReadMetadata (po_input options)] @ ?tiles
            @ [WriteFile (path_join ?cd ''metadata.json'')
                 (JSON_stringify
                    ((metadata res)
                       \<lparr>chunks := map (\<lambda>c. c\<lparr>c_filename := c_id c @ ''.png''\<rparr>)
                                    (chunks (metadata res)),
                        format := png\<rparr>)),
               Mkdir ?kd]
            @ evs
            @ [Rm ?cd, WriteFile (path_join ?kd ''metadata.json'') (JSON_stringify (metadata res))] \<and>
        (\<forall>ev \<in> set evs. is_convert ev) \<and>
        filter is_access evs
          = map (\<lambda>c. Access (path_join ?cd (c_id c @ ''.png''))) (chunks (metadata res))"
    by blast
  have C: "path_join ?cd ''metadata.json'' \<noteq> path_join ?kd ''metadata.json''"
    using sibling_join_differs [of "''chunks_temp''" "''chunks''" "''metadata.json''"
            "po_outputDir options"]
    by (simp add: plain_names)
  have C1: "path_join ?cd ''metadata.json'' \<noteq> path_join (po_outputDir options) ''metadata.json''"
    by (rule nested_join_differs) (rule plain_names)+
  have C2: "path_join ?kd ''metadata.json'' \<noteq> path_join (po_outputDir options) ''metadata.json''"
    by (rule nested_join_differs) (rule plain_names)+
  have D: "last (butlast (trace s')) = Rm ?cd"
    and E: "last (trace s')
       = WriteFile (path_join ?kd ''metadata.json'') (JSON_stringify (metadata res))"
    by (simp_all add: tr butlast_append)
  show ?thesis
    apply (intro conjI)
           apply (rule A)
          apply (rule B)
         apply (rule T)
        apply (rule C)
       apply (rule C1)
      apply (rule C2)
     apply (rule D)
    apply (rule E)
    done
qed

theorem manifest_persisted_twice_witness:
  "processMapToKTX2 (sim_io (Some 3) (Some 2) [''out/chunks_temp/1_0.png''] True)
     demo_options start = Some (Inr demo_report, demo_final) \<and>
   filter is_write (trace demo_final)
     = [WriteFile ''out/chunks_temp/metadata.json'' (JSON_stringify demo_manifest),
        WriteFile ''out/chunks/metadata.json'' (JSON_stringify demo_final_manifest)] \<and>
   format (metadata demo_report) = ktx2 \<and>
   path_join (path_join ''out'' ''chunks_temp'') ''metadata.json''
     \<noteq> path_join (path_join ''out'' ''chunks'') ''metadata.json'' \<and>
   path_join (path_join ''out'' ''chunks_temp'') ''metadata.json''
     \<noteq> path_join ''out'' ''metadata.json'' \<and>
   path_join (path_join ''out'' ''chunks'') ''metadata.json''
     \<noteq> path_join ''out'' ''metadata.json'' \<and>
   last (butlast (trace demo_final)) = Rm ''out/chunks_temp'' \<and>
   last (trace demo_final)
     = WriteFile ''out/chunks/metadata.json'' (JSON_stringify demo_final_manifest)"
proof -
  note t = manifest_persisted_twice [OF demo_run]
  have early: "(metadata demo_report)
      \<lparr>chunks := map (\<lambda>c. c\<lparr>c_filename := c_id c @ ''.png''\<rparr>) (chunks (metadata demo_report)),
       format := png\<rparr> = demo_manifest"
    by (simp add: demo_report_def demo_final_manifest_def demo_manifest_def)
  from t have "filter is_write (trace demo_final)
       = filter is_write (trace start)
         @ [WriteFile (path_join (path_join (po_outputDir demo_options) ''chunks_temp'')
                         ''metadata.json'')
              (JSON_stringify
                 ((metadata demo_report)
                    \<lparr>chunks := map (\<lambda>c. c\<lparr>c_filename := c_id c @ ''.png''\<rparr>)
                                 (chunks (metadata demo_report)),
                     format := png\<rparr>)),
            WriteFile (path_join (path_join (po_outputDir demo_options) ''chunks'') ''metadata.json'')
              (JSON_stringify (metadata demo_report))]"
    by (rule conjunct1)
  then have writes: "filter is_write (trace demo_final)
     = [WriteFile ''out/chunks_temp/metadata.json'' (JSON_stringify demo_manifest),
        WriteFile ''out/chunks/metadata.json'' (JSON_stringify demo_final_manifest)]"
    unfolding early by (simp add: demo_options_fields demo_paths start_def demo_report_def)
  from t have fmt: "format (metadata demo_report) = ktx2"
    and ne: "path_join (path_join (po_outputDir demo_options) ''chunks_temp'') ''metadata.json''
       \<noteq> path_join (path_join (po_outputDir demo_options) ''chunks'') ''metadata.json''"
      "path_join (path_join (po_outputDir demo_options) ''chunks_temp'') ''metadata.json''
       \<noteq> path_join (po_outputDir demo_options) ''metadata.json''"
      "path_join (path_join (po_outputDir demo_options) ''chunks'') ''metadata.json''
       \<noteq> path_join (po_outputDir demo_options) ''metadata.json''"
    and l2: "last (butlast (trace demo_final))
               = Rm (path_join (po_outputDir demo_options) ''chunks_temp'')"
    and l1: "last (trace demo_final)
       = WriteFile (path_join (path_join (po_outputDir demo_options) ''chunks'') ''metadata.json'')
           (JSON_stringify (metadata demo_report))"
    by blast+
  note ne' = ne [unfolded demo_options_fields]
  from l2 have l2': "last (butlast (trace demo_final)) = Rm ''out/chunks_temp''"
    by (simp only: demo_options_fields demo_paths)
  from l1 have l1': "last (trace demo_final)
     = WriteFile ''out/chunks/metadata.json'' (JSON_stringify demo_final_manifest)"
    by (simp add: demo_options_fields demo_paths demo_report_def)
  from demo_run writes fmt ne' l2' l1' show ?thesis by (simp only: simp_thms)
qed

section \<open>A failing cleanup\<close>

text \<open>
  C8, as stated, fails: when the removal of the temporary directory throws, the run
  returns no report at all. Here both tiles are compressed and the removal then fails.
\<close>

theorem cleanup_failure_counterexample:
  "fs_rm (sim_io (Some 3) (Some 2) [] False) ''out/chunks_temp'' () = (Inl (Error ''EPERM''), ()) \<and>
   map_option fst (processMapToKTX2 (sim_io (Some 3) (Some 2) [] False) demo_options start)
     = Some (Inl (Error ''EPERM''))"
proof -
  have "fs_rm (sim_io (Some 3) (Some 2) [] False) ''out/chunks_temp'' ()
          = (Inl (Error ''EPERM''), ())"
    by (simp add: sim_io_def)
  moreover have "map_option fst
       (processMapToKTX2 (sim_io (Some 3) (Some 2) [] False) demo_options start)
     = Some (Inl (Error ''EPERM''))"
    by code_simp
  ultimately show ?thesis by simp
qed

text \<open>
  C8, amended. When partitioning and the compress phase have completed and the removal
  of the temporary directory then throws, \<^verbatim>\<open>processMapToKTX2\<close> throws that same value
  to its caller: no report is returned, and the removal is the last request of the run
  (the final manifest is not written).
\<close>

theorem cleanup_failure_propagates:
  assumes ci: "chunkImage env (pipeline_chunker options) (po_input options) s = Some (Inr m0, s1)"
    and mk: "request (Mkdir (path_join (po_outputDir options) ''chunks''))
               (fs_mkdir env (path_join (po_outputDir options) ''chunks'')) s1 = (Inr u, s2)"
    and cl: "compress_loop env (pipeline_forge options)
               (path_join (po_outputDir options) ''chunks_temp'')
               (path_join (po_outputDir options) ''chunks'') (chunks m0) [] [] 0 0 s2
             = (Inr x, s3)"
    and rm: "fs_rm env (path_join (po_outputDir options) ''chunks_temp'') (world s3) = (Inl e, w4)"
  shows "processMapToKTX2 env options s
           = Some (Inl e, \<lparr>world = w4,
                           trace = trace s3 @ [Rm (path_join (po_outputDir options) ''chunks_temp'')]\<rparr>)"
  using ci mk cl rm
  by (simp add: processMapToKTX2_def pipeline_chunker_def [symmetric]
        pipeline_forge_def [symmetric] Let_def request_def split: prod.splits)

theorem cleanup_failure_propagates_witness:
  "fs_rm (sim_io (Some 3) (Some 2) [] False) ''out/chunks_temp'' () = (Inl (Error ''EPERM''), ()) \<and>
   (\<exists>s'. processMapToKTX2 (sim_io (Some 3) (Some 2) [] False) demo_options start
            = Some (Inl (Error ''EPERM''), s') \<and>
          last (trace s') = Rm ''out/chunks_temp'')"
proof -
  let ?env = "sim_io (Some 3) (Some 2) [] False"
  have "map_option fst (chunkImage ?env (pipeline_chunker demo_options) (po_input demo_options) start)
          = Some (Inr demo_manifest)"
    by code_simp
  then obtain s1 where
    ci: "chunkImage ?env (pipeline_chunker demo_options) (po_input demo_options) start
           = Some (Inr demo_manifest, s1)"
    by auto
  obtain s2 where
    mk: "request (Mkdir (path_join (po_outputDir demo_options) ''chunks''))
           (fs_mkdir ?env (path_join (po_outputDir demo_options) ''chunks'')) s1 = (Inr (), s2)"
    by (simp add: request_def sim_io_def)
  from compress_loop_returns obtain x s3 where
    cl: "compress_loop ?env (pipeline_forge demo_options)
           (path_join (po_outputDir demo_options) ''chunks_temp'')
           (path_join (po_outputDir demo_options) ''chunks'') (chunks demo_manifest) [] [] 0 0 s2
         = (Inr x, s3)"
    by blast
  have rm: "fs_rm ?env (path_join (po_outputDir demo_options) ''chunks_temp'') (world s3)
              = (Inl (Error ''EPERM''), ())"
    by (simp add: sim_io_def)
  have rm': "fs_rm ?env ''out/chunks_temp'' () = (Inl (Error ''EPERM''), ())"
    by (simp add: sim_io_def)
  from cleanup_failure_propagates [OF ci mk cl rm] rm' show ?thesis
    by (simp add: demo_options_fields demo_paths)
qed

section \<open>What the chunker validates\<close>







end
